theory Spec2Isabelle
  imports Main
begin

section \<open>Permission matcher (permission.go)\<close>

text \<open>
  Go strings are byte sequences; they are modelled as \<^typ>\<open>string\<close> (lists of 8-bit
  characters).  \<open>strings.HasPrefix(s, prefix)\<close> of the Go standard library is
  \<^verbatim>\<open>len(s) >= len(prefix) && s[:len(prefix)] == prefix\<close>.
\<close>

definition HasPrefix :: "string \<Rightarrow> string \<Rightarrow> bool" where
  "HasPrefix s pre = (length pre \<le> length s \<and> take (length pre) s = pre)"

definition CheckPermission :: "string \<Rightarrow> string \<Rightarrow> bool" where
  "CheckPermission requiredPermission givenPermission =
     (if requiredPermission = givenPermission then True
      else if HasPrefix requiredPermission (givenPermission @ ''.'') then True
      else if HasPrefix givenPermission (requiredPermission @ ''.'') then True
      else False)"

fun CheckPermissions :: "string \<Rightarrow> string list \<Rightarrow> bool" where
  "CheckPermissions requiredPermission [] = False"
| "CheckPermissions requiredPermission (given # givenPermissions) =
     (if CheckPermission requiredPermission given then True
      else CheckPermissions requiredPermission givenPermissions)"

section \<open>Entity model\<close>

text \<open>
  The structs of the entity model.  The Go type \<open>uint\<close> of identifiers is modelled as
  \<^typ>\<open>nat\<close> (identifiers are assigned by the storage and no arithmetic is done on them); a
  \<open>*uint\<close> parent reference is a \<^typ>\<open>nat option\<close>.  The time stamps \<open>CreatedAt\<close> and
  \<open>UpdatedAt\<close> are left out: no operation of the manager reads them.
\<close>

record Action =
  act_ID :: nat
  act_Key :: string
  act_Name :: string
  act_Description :: string
  act_ResourceID :: nat

definition DefineAction :: "string \<Rightarrow> string \<Rightarrow> string \<Rightarrow> Action" where
  "DefineAction key name description =
     \<lparr>act_ID = 0, act_Key = key, act_Name = name, act_Description = description,
      act_ResourceID = 0\<rparr>"

datatype Resource = Resource
  (res_ID: nat) (res_Key: string) (res_Name: string) (res_Description: string)
  (res_ParentID: "nat option") (res_Actions: "Action list") (res_SubResources: "Resource list")

record ResourceConfig =
  cfg_Key :: string
  cfg_Name :: string
  cfg_Description :: string
  cfg_Actions :: "Action list"
  cfg_SubResources :: "Resource list"

record Role =
  role_ID :: nat
  role_Key :: string
  role_Name :: string
  role_Description :: string
  role_Permissions :: "string list"

record RoleConfig =
  rcfg_Name :: string
  rcfg_Description :: string
  rcfg_Permissions :: "string list"

section \<open>Errors and the storage interface (storage.go)\<close>

text \<open>
  The sentinel errors of the package, and \<open>ErrOther\<close> for any other error value a storage
  backend may return (a driver error, say).  Go compares errors by identity
  (\<open>err == ErrRoleNotFound\<close>); here that is equality of constructors.
\<close>

datatype error =
    ErrInvalidResourcePath
  | ErrResourceExists
  | ErrRoleExists
  | ErrResourceNotFound
  | ErrActionNotFound
  | ErrRoleNotFound
  | ErrDuplicateKey
  | ErrOther string

text \<open>
  A call of a storage method runs on the state of the backend and returns its result with
  the new state.  A Go result \<open>(value, err)\<close> is \<open>Inl err\<close> when \<open>err\<close> is not nil and
  \<open>Inr value\<close> otherwise; a method that returns only an \<open>error\<close> returns \<open>Inr ()\<close> on
  success.  A method that takes a pointer and fills it in (\<open>CreateResource\<close>,
  \<open>CreateRole\<close>: the identifier is set by the backend) returns the filled-in record.
  Lookups are taken to return a non-nil record whenever they return a nil error, as the
  GORM backend does.

  The record below has the methods of the \<open>Storage\<close> interface that the manager calls.
\<close>

type_synonym ('s, 'a) call = "'s \<Rightarrow> (error + 'a) \<times> 's"

record 's Storage =
  CreateResource :: "Resource \<Rightarrow> ('s, Resource) call"
  GetResource :: "string \<Rightarrow> nat option \<Rightarrow> ('s, Resource) call"
  GetResourceByID :: "nat \<Rightarrow> ('s, Resource) call"
  ListResources :: "nat option \<Rightarrow> ('s, Resource list) call"
  DeleteResource :: "nat \<Rightarrow> ('s, unit) call"
  CreateActions :: "nat \<Rightarrow> Action list \<Rightarrow> ('s, unit) call"
  CreateRole :: "Role \<Rightarrow> ('s, Role) call"
  GetRole :: "string \<Rightarrow> ('s, Role) call"
  ListRoles :: "('s, Role list) call"
  UpdateRole :: "Role \<Rightarrow> ('s, unit) call"
  DeleteRole :: "nat \<Rightarrow> ('s, unit) call"

section \<open>The manager (manager.go)\<close>

text \<open>
  \<open>strings.Split(path, ".")\<close> cuts \<open>path\<close> at every dot and returns the pieces between the
  dots, so a string with \<open>n\<close> dots gives \<open>n + 1\<close> pieces, some of them possibly empty.
  \<open>splitOn sep seg rest\<close> scans \<open>rest\<close> with the piece read so far in \<open>seg\<close>.
\<close>

fun splitOn :: "char \<Rightarrow> string \<Rightarrow> string \<Rightarrow> string list" where
  "splitOn sep seg [] = [seg]"
| "splitOn sep seg (c # cs) =
     (if c = sep then seg # splitOn sep [] cs else splitOn sep (seg @ [c]) cs)"

definition parseResourcePath :: "string \<Rightarrow> string list" where
  "parseResourcePath path = splitOn (CHR ''.'') [] path"

text \<open>
  The loop of \<open>getResourceByPath\<close> over the keys: \<open>walkKeys st key keys parentID\<close> looks
  \<open>key\<close> up under \<open>parentID\<close> and goes on with \<open>keys\<close> under the resource found.  The
  resource of the last iteration is the result.
\<close>

fun walkKeys :: "'s Storage \<Rightarrow> string \<Rightarrow> string list \<Rightarrow> nat option \<Rightarrow> ('s, Resource) call" where
  "walkKeys st key [] parentID s =
     (case GetResource st key parentID s of
        (Inl err, s') \<Rightarrow> (Inl err, s')
      | (Inr resource, s') \<Rightarrow> (Inr resource, s'))"
| "walkKeys st key (k # ks) parentID s =
     (case GetResource st key parentID s of
        (Inl err, s') \<Rightarrow> (Inl err, s')
      | (Inr resource, s') \<Rightarrow> walkKeys st k ks (Some (res_ID resource)) s')"

definition getResourceByPath :: "'s Storage \<Rightarrow> string \<Rightarrow> ('s, Resource) call" where
  "getResourceByPath st path s =
     (case parseResourcePath path of
        [] \<Rightarrow> (Inl ErrInvalidResourcePath, s)
      | key # keys \<Rightarrow> walkKeys st key keys None s)"

text \<open>The loop of \<open>CreateResource\<close> over \<open>config.SubResources\<close>.\<close>

fun createSubResources :: "'s Storage \<Rightarrow> nat \<Rightarrow> Resource list \<Rightarrow> ('s, unit) call" where
  "createSubResources st parentID [] s = (Inr (), s)"
| "createSubResources st parentID (subConfig # rest) s =
     (case CreateResource st
             (Resource 0 (res_Key subConfig) (res_Name subConfig) (res_Description subConfig)
                (Some parentID) [] []) s of
        (Inl err, s1) \<Rightarrow> (Inl err, s1)
      | (Inr subResource, s1) \<Rightarrow>
          (if length (res_Actions subConfig) > 0 then
             (case CreateActions st (res_ID subResource) (res_Actions subConfig) s1 of
                (Inl err, s2) \<Rightarrow> (Inl err, s2)
              | (Inr _, s2) \<Rightarrow> createSubResources st parentID rest s2)
           else createSubResources st parentID rest s1))"

definition Manager_CreateResource :: "'s Storage \<Rightarrow> ResourceConfig \<Rightarrow> ('s, Resource) call" where
  "Manager_CreateResource st config s =
     (case GetResource st (cfg_Key config) None s of
        (Inr existing, s0) \<Rightarrow> (Inl ErrResourceExists, s0)
      | (Inl _, s0) \<Rightarrow>
          (case CreateResource st
                  (Resource 0 (cfg_Key config) (cfg_Name config) (cfg_Description config)
                     None [] []) s0 of
             (Inl err, s1) \<Rightarrow> (Inl err, s1)
           | (Inr resource, s1) \<Rightarrow>
               (case (if length (cfg_Actions config) > 0
                      then CreateActions st (res_ID resource) (cfg_Actions config) s1
                      else (Inr (), s1)) of
                  (Inl err, s2) \<Rightarrow> (Inl err, s2)
                | (Inr _, s2) \<Rightarrow>
                    (case createSubResources st (res_ID resource) (cfg_SubResources config) s2 of
                       (Inl err, s3) \<Rightarrow> (Inl err, s3)
                     | (Inr _, s3) \<Rightarrow> GetResourceByID st (res_ID resource) s3))))"

definition AddActions :: "'s Storage \<Rightarrow> string \<Rightarrow> Action list \<Rightarrow> ('s, unit) call" where
  "AddActions st resourcePath actions s =
     (case getResourceByPath st resourcePath s of
        (Inl err, s') \<Rightarrow> (Inl err, s')
      | (Inr resource, s') \<Rightarrow> CreateActions st (res_ID resource) actions s')"

text \<open>The loop of \<open>CreateResources\<close> over the candidates, under the resolved parent.\<close>

fun createResourcesLoop :: "'s Storage \<Rightarrow> Resource \<Rightarrow> Resource list \<Rightarrow> ('s, unit) call" where
  "createResourcesLoop st parent [] s = (Inr (), s)"
| "createResourcesLoop st parent (subConfig # rest) s =
     (case GetResource st (res_Key subConfig) (Some (res_ID parent)) s of
        (Inr existing, s0) \<Rightarrow>
          (if length (res_Actions subConfig) > 0 then
             (case CreateActions st (res_ID existing) (res_Actions subConfig) s0 of
                (Inl err, s1) \<Rightarrow> (Inl err, s1)
              | (Inr _, s1) \<Rightarrow> createResourcesLoop st parent rest s1)
           else createResourcesLoop st parent rest s0)
      | (Inl _, s0) \<Rightarrow>
          (case CreateResource st
                  (Resource 0 (res_Key subConfig) (res_Name subConfig)
                     (res_Description subConfig) (Some (res_ID parent)) [] []) s0 of
             (Inl err, s1) \<Rightarrow> (Inl err, s1)
           | (Inr subResource, s1) \<Rightarrow>
               (if length (res_Actions subConfig) > 0 then
                  (case CreateActions st (res_ID subResource) (res_Actions subConfig) s1 of
                     (Inl err, s2) \<Rightarrow> (Inl err, s2)
                   | (Inr _, s2) \<Rightarrow> createResourcesLoop st parent rest s2)
                else createResourcesLoop st parent rest s1)))"

definition CreateResources :: "'s Storage \<Rightarrow> string \<Rightarrow> Resource list \<Rightarrow> ('s, unit) call" where
  "CreateResources st parentPath subResources s =
     (case getResourceByPath st parentPath s of
        (Inl err, s') \<Rightarrow> (Inl err, s')
      | (Inr parent, s') \<Rightarrow> createResourcesLoop st parent subResources s')"

definition Manager_GetResource :: "'s Storage \<Rightarrow> string \<Rightarrow> ('s, Resource) call" where
  "Manager_GetResource st path s = getResourceByPath st path s"

definition Manager_ListResources :: "'s Storage \<Rightarrow> ('s, Resource list) call" where
  "Manager_ListResources st s = ListResources st None s"

definition Manager_CreateRole :: "'s Storage \<Rightarrow> string \<Rightarrow> RoleConfig \<Rightarrow> ('s, Role) call" where
  "Manager_CreateRole st key config s =
     (case GetRole st key s of
        (Inr existing, s0) \<Rightarrow> (Inl ErrRoleExists, s0)
      | (Inl _, s0) \<Rightarrow>
          (case CreateRole st
                  \<lparr>role_ID = 0, role_Key = key, role_Name = rcfg_Name config,
                   role_Description = rcfg_Description config,
                   role_Permissions = rcfg_Permissions config\<rparr> s0 of
             (Inl err, s1) \<Rightarrow> (Inl err, s1)
           | (Inr role, s1) \<Rightarrow> (Inr role, s1)))"

text \<open>
  A Go \<open>map[string]bool\<close> is a function from strings to booleans: a key that was never
  set reads as \<open>false\<close>.  \<open>markAll\<close> is the loop that sets every string of a list.
\<close>

fun markAll :: "string list \<Rightarrow> (string \<Rightarrow> bool) \<Rightarrow> (string \<Rightarrow> bool)" where
  "markAll [] m = m"
| "markAll (p # ps) m = markAll ps (m(p := True))"

text \<open>The second loop of \<open>AssignPermissions\<close>, over the incoming permissions.\<close>

fun appendMissing :: "string list \<Rightarrow> (string \<Rightarrow> bool) \<Rightarrow> string list \<Rightarrow> string list" where
  "appendMissing [] permMap rolePermissions = rolePermissions"
| "appendMissing (p # ps) permMap rolePermissions =
     (if \<not> permMap p then appendMissing ps (permMap(p := True)) (rolePermissions @ [p])
      else appendMissing ps permMap rolePermissions)"

definition AssignPermissions :: "'s Storage \<Rightarrow> string \<Rightarrow> string list \<Rightarrow> ('s, unit) call" where
  "AssignPermissions st roleKey permissions s =
     (case GetRole st roleKey s of
        (Inl err, s') \<Rightarrow> (Inl err, s')
      | (Inr role, s') \<Rightarrow>
          (let permMap = markAll (role_Permissions role) (\<lambda>_. False)
           in UpdateRole st
                (role\<lparr>role_Permissions :=
                         appendMissing permissions permMap (role_Permissions role)\<rparr>) s'))"

text \<open>The filter loop of \<open>RemovePermissions\<close>.\<close>

fun keepUnmarked :: "string list \<Rightarrow> (string \<Rightarrow> bool) \<Rightarrow> string list \<Rightarrow> string list" where
  "keepUnmarked [] toRemove newPermissions = newPermissions"
| "keepUnmarked (p # ps) toRemove newPermissions =
     (if \<not> toRemove p then keepUnmarked ps toRemove (newPermissions @ [p])
      else keepUnmarked ps toRemove newPermissions)"

definition RemovePermissions :: "'s Storage \<Rightarrow> string \<Rightarrow> string list \<Rightarrow> ('s, unit) call" where
  "RemovePermissions st roleKey permissions s =
     (case GetRole st roleKey s of
        (Inl err, s') \<Rightarrow> (Inl err, s')
      | (Inr role, s') \<Rightarrow>
          (let toRemove = markAll permissions (\<lambda>_. False)
           in UpdateRole st
                (role\<lparr>role_Permissions := keepUnmarked (role_Permissions role) toRemove []\<rparr>) s'))"

definition Manager_GetRole :: "'s Storage \<Rightarrow> string \<Rightarrow> ('s, Role) call" where
  "Manager_GetRole st key s = GetRole st key s"

definition Manager_ListRoles :: "'s Storage \<Rightarrow> ('s, Role list) call" where
  "Manager_ListRoles st s = ListRoles st s"

definition Manager_DeleteRole :: "'s Storage \<Rightarrow> string \<Rightarrow> ('s, unit) call" where
  "Manager_DeleteRole st key s =
     (case GetRole st key s of
        (Inl err, s') \<Rightarrow> (Inl err, s')
      | (Inr role, s') \<Rightarrow> DeleteRole st (role_ID role) s')"

definition Manager_DeleteResource :: "'s Storage \<Rightarrow> string \<Rightarrow> ('s, unit) call" where
  "Manager_DeleteResource st path s =
     (case getResourceByPath st path s of
        (Inl err, s') \<Rightarrow> (Inl err, s')
      | (Inr resource, s') \<Rightarrow> DeleteResource st (res_ID resource) s')"

definition BuildPermissionString :: "string \<Rightarrow> string \<Rightarrow> string" where
  "BuildPermissionString resourcePath action = resourcePath @ ''.'' @ action"

subsection \<open>Role checks (permission.go)\<close>

definition CheckRolePermission :: "'s Storage \<Rightarrow> string \<Rightarrow> string \<Rightarrow> ('s, bool) call" where
  "CheckRolePermission st roleKey requiredPermission s =
     (case GetRole st roleKey s of
        (Inl err, s') \<Rightarrow> (Inl err, s')
      | (Inr role, s') \<Rightarrow>
          (Inr (CheckPermissions requiredPermission (role_Permissions role)), s'))"

fun CheckRolesPermission :: "'s Storage \<Rightarrow> string list \<Rightarrow> string \<Rightarrow> ('s, bool) call" where
  "CheckRolesPermission st [] requiredPermission s = (Inr False, s)"
| "CheckRolesPermission st (roleKey # roleKeys) requiredPermission s =
     (case CheckRolePermission st roleKey requiredPermission s of
        (Inl err, s') \<Rightarrow>
          (if err = ErrRoleNotFound then CheckRolesPermission st roleKeys requiredPermission s'
           else (Inl err, s'))
      | (Inr hasPermission, s') \<Rightarrow>
          (if hasPermission then (Inr True, s')
           else CheckRolesPermission st roleKeys requiredPermission s'))"

section \<open>The GORM backend over a model of the database\<close>

text \<open>
  \<open>GormStorage\<close> passes every call on to a relational database through GORM.  The
  database is modelled by its three tables, each a list of rows in the order of their
  primary keys, and the counters of the auto-incremented primary keys.  A row of the table
  of resources is a \<open>Resource\<close> without actions and sub-resources: these are other rows,
  found through \<open>resource_id\<close> and \<open>parent_id\<close>.

  What the model takes from the struct tags and from GORM:
  \<^item> \<open>Create\<close> gives a record whose \<open>ID\<close> is zero the next value of the counter as its
    identifier.  The manager builds the resources and roles it creates itself, with \<open>ID\<close>
    zero and, for a resource, without actions or sub-resources of its own; actions come
    from the caller and may carry an \<open>ID\<close>, which \<open>Create\<close> then inserts as it is;
  \<^item> the unique indexes \<open>idx_parent_key\<close> on resources, \<open>idx_resource_action\<close> on
    actions and the unique index on the key of roles make an insert fail with a driver
    error; as in SQL, two rows whose \<open>parent_id\<close> is NULL never collide;
  \<^item> \<open>Create\<close> of an empty slice fails (\<open>gorm.ErrEmptySlice\<close>);
  \<^item> \<open>First\<close> returns the matching row of least primary key, and
    \<open>gorm.ErrRecordNotFound\<close> when there is none;
  \<^item> \<open>Preload\<close> fills in the actions and the immediate sub-resources of the row found;
  \<^item> \<open>Save\<close> of a record with a primary key overwrites the row of that key, or inserts
    the record when no row has it;
  \<^item> \<open>Delete\<close> removes the row of the given primary key and nothing else: the database is
    opened as SQLite opens it, without enforcement of foreign keys, so the
    \<open>OnDelete:CASCADE\<close> constraints of the struct tags do not act, and the actions and the
    descendants of a deleted resource stay in their tables.
\<close>

record DB =
  db_resources :: "Resource list"
  db_actions :: "Action list"
  db_roles :: "Role list"
  db_resource_seq :: nat
  db_action_seq :: nat
  db_role_seq :: nat

definition emptyDB :: DB where
  "emptyDB = \<lparr>db_resources = [], db_actions = [], db_roles = [],
              db_resource_seq = 0, db_action_seq = 0, db_role_seq = 0\<rparr>"

definition preload :: "DB \<Rightarrow> Resource \<Rightarrow> Resource" where
  "preload db row =
     Resource (res_ID row) (res_Key row) (res_Name row) (res_Description row) (res_ParentID row)
       (filter (\<lambda>a. act_ResourceID a = res_ID row) (db_actions db))
       (filter (\<lambda>r. res_ParentID r = Some (res_ID row)) (db_resources db))"

definition Gorm_CreateResource :: "Resource \<Rightarrow> (DB, Resource) call" where
  "Gorm_CreateResource resource db =
     (if res_ParentID resource \<noteq> None \<and>
         list_ex (\<lambda>r. res_Key r = res_Key resource \<and> res_ParentID r = res_ParentID resource)
           (db_resources db)
      then (Inl (ErrOther ''UNIQUE constraint failed: resources.key, resources.parent_id''), db)
      else
        (let newID = db_resource_seq db + 1 in
         (Inr (Resource newID (res_Key resource) (res_Name resource) (res_Description resource)
                 (res_ParentID resource) (res_Actions resource) (res_SubResources resource)),
          db\<lparr>db_resources := db_resources db @
                  [Resource newID (res_Key resource) (res_Name resource)
                     (res_Description resource) (res_ParentID resource) [] []],
             db_resource_seq := newID\<rparr>)))"

definition Gorm_GetResource :: "string \<Rightarrow> nat option \<Rightarrow> (DB, Resource) call" where
  "Gorm_GetResource key parentID db =
     (case find (\<lambda>r. res_Key r = key \<and> res_ParentID r = parentID) (db_resources db) of
        None \<Rightarrow> (Inl ErrResourceNotFound, db)
      | Some row \<Rightarrow> (Inr (preload db row), db))"

definition Gorm_GetResourceByID :: "nat \<Rightarrow> (DB, Resource) call" where
  "Gorm_GetResourceByID ident db =
     (case find (\<lambda>r. res_ID r = ident) (db_resources db) of
        None \<Rightarrow> (Inl ErrResourceNotFound, db)
      | Some row \<Rightarrow> (Inr (preload db row), db))"

definition Gorm_ListResources :: "nat option \<Rightarrow> (DB, Resource list) call" where
  "Gorm_ListResources parentID db =
     (Inr (map (preload db) (filter (\<lambda>r. res_ParentID r = parentID) (db_resources db))), db)"

definition Gorm_DeleteResource :: "nat \<Rightarrow> (DB, unit) call" where
  "Gorm_DeleteResource ident db =
     (Inr (), db\<lparr>db_resources := filter (\<lambda>r. res_ID r \<noteq> ident) (db_resources db)\<rparr>)"

text \<open>
  \<open>CreateActions\<close> binds every action of the caller's slice to the resource and inserts
  the slice in one statement, row after row.  An action whose \<open>ID\<close> is zero gets a fresh
  identifier, one more than the largest the table has held; an action that carries an
  \<open>ID\<close> is inserted under it.  A row whose identifier the table already has violates the
  primary key, and a row whose key the resource already has violates
  \<open>idx_resource_action\<close>; the statement then fails as a whole and the database stays as it
  was.  \<open>insertActions\<close> returns the rows as they were inserted, in the order of the slice,
  together with the table and the counter.

  Identifiers are natural numbers here, and the keys of SQLite end at \<open>maxRowID\<close>: once the
  table has held that key, an insert that needs a fresh identifier fails, the database
  being full.  The model is for identifiers within this range; what GORM and the driver
  make of an action that carries a larger one is not modelled.
\<close>

definition maxRowID :: nat where
  "maxRowID = 9223372036854775807"

fun insertActions ::
  "Action list \<Rightarrow> Action list \<Rightarrow> nat \<Rightarrow> error + (Action list \<times> Action list \<times> nat)" where
  "insertActions [] rows counter = Inr ([], rows, counter)"
| "insertActions (a # as) rows counter =
     (let top = foldr max (map act_ID rows) counter;
          ident = (if act_ID a = 0 then Suc top else act_ID a);
          row = a\<lparr>act_ID := ident\<rparr>
      in if act_ID a = 0 \<and> maxRowID \<le> top
         then Inl (ErrOther ''database or disk is full'')
         else if list_ex (\<lambda>r. act_ID r = ident) rows
         then Inl (ErrOther ''UNIQUE constraint failed: actions.id'')
         else if list_ex (\<lambda>r. act_Key r = act_Key a \<and> act_ResourceID r = act_ResourceID a) rows
         then Inl (ErrOther ''UNIQUE constraint failed: actions.key, actions.resource_id'')
         else (case insertActions as (insort_key act_ID row rows) (max counter ident) of
                 Inl err \<Rightarrow> Inl err
               | Inr (written, rows', counter') \<Rightarrow> Inr (row # written, rows', counter')))"

definition Gorm_CreateActions :: "nat \<Rightarrow> Action list \<Rightarrow> (DB, unit) call" where
  "Gorm_CreateActions resourceID actions db =
     (if actions = [] then (Inl (ErrOther ''empty slice found''), db)
      else
        (case insertActions (map (\<lambda>a. a\<lparr>act_ResourceID := resourceID\<rparr>) actions)
                (db_actions db) (db_action_seq db) of
           Inl err \<Rightarrow> (Inl err, db)
         | Inr (written, rows, counter) \<Rightarrow>
             (Inr (), db\<lparr>db_actions := rows, db_action_seq := counter\<rparr>)))"

text \<open>
  The slice is the caller's: after the call it holds what \<open>CreateActions\<close> and GORM have
  written into it, the resource on every action and, when the insert succeeded, the
  identifiers of the rows.  The manager hands each slice of its arguments over once and
  does not read it again; so for arguments that share no slice among themselves, which
  is what a list stands for here, the slice after the call does not show within one
  operation.  A caller who passes the same slice to a second operation passes this value.
\<close>

definition Gorm_CreateActions_slice :: "nat \<Rightarrow> Action list \<Rightarrow> DB \<Rightarrow> Action list" where
  "Gorm_CreateActions_slice resourceID actions db =
     (case insertActions (map (\<lambda>a. a\<lparr>act_ResourceID := resourceID\<rparr>) actions)
             (db_actions db) (db_action_seq db) of
        Inl err \<Rightarrow> map (\<lambda>a. a\<lparr>act_ResourceID := resourceID\<rparr>) actions
      | Inr (written, rows, counter) \<Rightarrow> written)"

definition Gorm_CreateRole :: "Role \<Rightarrow> (DB, Role) call" where
  "Gorm_CreateRole role db =
     (if list_ex (\<lambda>r. role_Key r = role_Key role) (db_roles db)
      then (Inl (ErrOther ''UNIQUE constraint failed: roles.key''), db)
      else
        (let newID = db_role_seq db + 1 in
         (Inr (role\<lparr>role_ID := newID\<rparr>),
          db\<lparr>db_roles := db_roles db @ [role\<lparr>role_ID := newID\<rparr>], db_role_seq := newID\<rparr>)))"

definition Gorm_GetRole :: "string \<Rightarrow> (DB, Role) call" where
  "Gorm_GetRole key db =
     (case find (\<lambda>r. role_Key r = key) (db_roles db) of
        None \<Rightarrow> (Inl ErrRoleNotFound, db)
      | Some role \<Rightarrow> (Inr role, db))"

definition Gorm_ListRoles :: "(DB, Role list) call" where
  "Gorm_ListRoles db = (Inr (db_roles db), db)"

definition Gorm_UpdateRole :: "Role \<Rightarrow> (DB, unit) call" where
  "Gorm_UpdateRole role db =
     (if role_ID role = 0 then
        (case Gorm_CreateRole role db of
           (Inl err, db') \<Rightarrow> (Inl err, db')
         | (Inr _, db') \<Rightarrow> (Inr (), db'))
      else if list_ex (\<lambda>r. role_Key r = role_Key role \<and> role_ID r \<noteq> role_ID role) (db_roles db)
      then (Inl (ErrOther ''UNIQUE constraint failed: roles.key''), db)
      else if list_ex (\<lambda>r. role_ID r = role_ID role) (db_roles db)
      then (Inr (),
            db\<lparr>db_roles := map (\<lambda>r. if role_ID r = role_ID role then role else r) (db_roles db)\<rparr>)
      else (Inr (),
            db\<lparr>db_roles := db_roles db @ [role],
               db_role_seq := max (db_role_seq db) (role_ID role)\<rparr>))"

definition Gorm_DeleteRole :: "nat \<Rightarrow> (DB, unit) call" where
  "Gorm_DeleteRole ident db =
     (Inr (), db\<lparr>db_roles := filter (\<lambda>r. role_ID r \<noteq> ident) (db_roles db)\<rparr>)"

definition GormStorage :: "DB Storage" where
  "GormStorage =
     \<lparr>CreateResource = Gorm_CreateResource,
      GetResource = Gorm_GetResource,
      GetResourceByID = Gorm_GetResourceByID,
      ListResources = Gorm_ListResources,
      DeleteResource = Gorm_DeleteResource,
      CreateActions = Gorm_CreateActions,
      CreateRole = Gorm_CreateRole,
      GetRole = Gorm_GetRole,
      ListRoles = Gorm_ListRoles,
      UpdateRole = Gorm_UpdateRole,
      DeleteRole = Gorm_DeleteRole\<rparr>"

section \<open>Specification devices\<close>

subsection \<open>A storage that records its calls\<close>

text \<open>
  To say which storage calls an operation of the manager makes, and what becomes of their
  failures, a storage is wrapped so that it keeps a log: \<open>traced st\<close> behaves as \<open>st\<close> on
  the first component of its state and appends to the second, for every call, the method
  called and the error it returned, if any.

  \<open>reported exempt res log\<close> says that every failed call of the log either failed with the
  very error that the operation returned as \<open>res\<close>, or is one that \<open>exempt\<close> allows to go
  unreported.  \<open>audit exempt run plain\<close> compares the run of an operation on the traced
  storage with its run on the storage itself: same result, same final state of the storage,
  and a log whose failures are all reported.
\<close>

datatype storageMethod =
    MCreateResource | MGetResource | MGetResourceByID | MListResources | MDeleteResource
  | MCreateActions | MCreateRole | MGetRole | MListRoles | MUpdateRole | MDeleteRole

type_synonym event = "storageMethod \<times> error option"

definition outcome :: "(error + 'a) \<Rightarrow> error option" where
  "outcome r = (case r of Inl err \<Rightarrow> Some err | Inr _ \<Rightarrow> None)"

definition logged :: "storageMethod \<Rightarrow> ('s, 'a) call \<Rightarrow> ('s \<times> event list, 'a) call" where
  "logged m f = (\<lambda>(s, log). case f s of (r, s') \<Rightarrow> (r, (s', log @ [(m, outcome r)])))"

definition traced :: "'s Storage \<Rightarrow> ('s \<times> event list) Storage" where
  "traced st =
     \<lparr>CreateResource = (\<lambda>resource. logged MCreateResource (CreateResource st resource)),
      GetResource = (\<lambda>key parentID. logged MGetResource (GetResource st key parentID)),
      GetResourceByID = (\<lambda>ident. logged MGetResourceByID (GetResourceByID st ident)),
      ListResources = (\<lambda>parentID. logged MListResources (ListResources st parentID)),
      DeleteResource = (\<lambda>ident. logged MDeleteResource (DeleteResource st ident)),
      CreateActions = (\<lambda>resourceID actions. logged MCreateActions (CreateActions st resourceID actions)),
      CreateRole = (\<lambda>role. logged MCreateRole (CreateRole st role)),
      GetRole = (\<lambda>key. logged MGetRole (GetRole st key)),
      ListRoles = logged MListRoles (ListRoles st),
      UpdateRole = (\<lambda>role. logged MUpdateRole (UpdateRole st role)),
      DeleteRole = (\<lambda>ident. logged MDeleteRole (DeleteRole st ident))\<rparr>"

definition reported :: "(storageMethod \<Rightarrow> error \<Rightarrow> bool) \<Rightarrow> (error + 'a) \<Rightarrow> event list \<Rightarrow> bool" where
  "reported exempt res log =
     list_all (\<lambda>(m, r). case r of None \<Rightarrow> True | Some err \<Rightarrow> res = Inl err \<or> exempt m err) log"

definition joined :: "((error + 'a) \<times> 's) \<Rightarrow> event list \<Rightarrow> (error + 'a) \<times> ('s \<times> event list)" where
  "joined rs log = (fst rs, (snd rs, log))"

definition traceFrom :: "('s \<times> event list \<Rightarrow> (error + 'a) \<times> ('s \<times> event list)) \<Rightarrow> 's \<Rightarrow> event list" where
  "traceFrom f s = snd (snd (f (s, [])))"

definition audit :: "(storageMethod \<Rightarrow> error \<Rightarrow> bool) \<Rightarrow> ((error + 'a) \<times> ('s \<times> event list)) \<Rightarrow> ((error + 'a) \<times> 's) \<Rightarrow> bool" where
  "audit exempt run plain =
     (fst run = fst plain \<and> fst (snd run) = snd plain \<and> reported exempt (fst run) (snd (snd run)))"

text \<open>
  The failures that may go unreported: none at all; a role lookup that found no role; a
  resource lookup that found no resource; any failed role lookup; any failed resource lookup.
\<close>

definition noExemption :: "storageMethod \<Rightarrow> error \<Rightarrow> bool" where
  "noExemption m err = False"

definition missingRoleLookup :: "storageMethod \<Rightarrow> error \<Rightarrow> bool" where
  "missingRoleLookup m err = (m = MGetRole \<and> err = ErrRoleNotFound)"

definition missingResourceLookup :: "storageMethod \<Rightarrow> error \<Rightarrow> bool" where
  "missingResourceLookup m err = (m = MGetResource \<and> err = ErrResourceNotFound)"

definition roleLookup :: "storageMethod \<Rightarrow> error \<Rightarrow> bool" where
  "roleLookup m err = (m = MGetRole)"

definition resourceLookup :: "storageMethod \<Rightarrow> error \<Rightarrow> bool" where
  "resourceLookup m err = (m = MGetResource)"

subsection \<open>What the operations are compared with\<close>

text \<open>
  \<open>keepFirst\<close> keeps the first occurrence of every element of a list, in the order of the
  list.
\<close>

fun keepFirst :: "string list \<Rightarrow> string list" where
  "keepFirst [] = []"
| "keepFirst (p # ps) = p # filter (\<lambda>q. q \<noteq> p) (keepFirst ps)"

text \<open>
  For the check over several roles: the outcome of a role lookup is decisive when it ends the
  iteration, that is when it is an error other than \<open>ErrRoleNotFound\<close> or a role whose
  permissions satisfy the requirement; \<open>verdict\<close> is what the check then returns.
\<close>

definition decisive :: "string \<Rightarrow> (error + Role) \<Rightarrow> bool" where
  "decisive requiredPermission r =
     (case r of Inl err \<Rightarrow> err \<noteq> ErrRoleNotFound
              | Inr role \<Rightarrow> CheckPermissions requiredPermission (role_Permissions role))"

definition verdict :: "(error + Role) \<Rightarrow> (error + bool)" where
  "verdict r = (case r of Inl err \<Rightarrow> Inl err | Inr role \<Rightarrow> Inr True)"

text \<open>
  \<open>returnsNo e st\<close>: no method of the storage \<open>st\<close> ever returns the error \<open>e\<close>.
\<close>

definition returnsNo :: "error \<Rightarrow> 's Storage \<Rightarrow> bool" where
  "returnsNo e st =
     (\<forall>s. (\<forall>r. fst (CreateResource st r s) \<noteq> Inl e)
        \<and> (\<forall>k p. fst (GetResource st k p s) \<noteq> Inl e)
        \<and> (\<forall>i. fst (GetResourceByID st i s) \<noteq> Inl e)
        \<and> (\<forall>p. fst (ListResources st p s) \<noteq> Inl e)
        \<and> (\<forall>i. fst (DeleteResource st i s) \<noteq> Inl e)
        \<and> (\<forall>i as. fst (CreateActions st i as s) \<noteq> Inl e)
        \<and> (\<forall>r. fst (CreateRole st r s) \<noteq> Inl e)
        \<and> (\<forall>k. fst (GetRole st k s) \<noteq> Inl e)
        \<and> fst (ListRoles st s) \<noteq> Inl e
        \<and> (\<forall>r. fst (UpdateRole st r s) \<noteq> Inl e)
        \<and> (\<forall>i. fst (DeleteRole st i s) \<noteq> Inl e))"

text \<open>
  Two facts about a database.  \<open>rolesConsistent\<close> holds when role keys are unique, as the
  unique index on the key demands, and no role has the identifier zero, which an
  auto-incremented primary key never is.  \<open>hasRow db key parentID\<close> holds when the table of
  resources has a row of that key under that parent.
\<close>

definition rolesConsistent :: "DB \<Rightarrow> bool" where
  "rolesConsistent db =
     (distinct (map role_Key (db_roles db)) \<and> list_all (\<lambda>r. role_ID r \<noteq> 0) (db_roles db))"

definition hasRow :: "DB \<Rightarrow> string \<Rightarrow> nat option \<Rightarrow> bool" where
  "hasRow db key parentID =
     list_ex (\<lambda>r. res_Key r = key \<and> res_ParentID r = parentID) (db_resources db)"

text \<open>
  The invariant behind it: role keys and role identifiers are unique, and every identifier
  lies between one and the counter of the table.
\<close>

definition rolesSound :: "DB \<Rightarrow> bool" where
  "rolesSound db =
     (distinct (map role_Key (db_roles db)) \<and> distinct (map role_ID (db_roles db)) \<and>
      list_all (\<lambda>r. 0 < role_ID r \<and> role_ID r \<le> db_role_seq db) (db_roles db))"

text \<open>
  A backend in trouble: \<open>lockedOn k\<close> is the GORM backend, except that a lookup of the
  resource key or role key \<open>k\<close> fails with a driver error, as a lookup on a locked database
  does (\<open>GormStorage\<close> returns every error other than \<open>gorm.ErrRecordNotFound\<close> as it is).
\<close>

definition lockedOn :: "string \<Rightarrow> DB Storage" where
  "lockedOn k =
     GormStorage
       \<lparr>GetResource := (\<lambda>key parentID db.
          if key = k then (Inl (ErrOther ''database is locked''), db)
          else Gorm_GetResource key parentID db),
        GetRole := (\<lambda>key db.
          if key = k then (Inl (ErrOther ''database is locked''), db)
          else Gorm_GetRole key db)\<rparr>"

subsection \<open>Example data\<close>

text \<open>
  A role \<open>viewer\<close> holding \<open>article.read\<close>, a root resource \<open>article\<close>, its sub-resource
  \<open>comment\<close> offered once with the action \<open>edit\<close> and once with the action \<open>delete\<close>, a
  root resource whose key is the empty string, and the databases that hold them.
\<close>

definition viewerConfig :: RoleConfig where
  "viewerConfig = \<lparr>rcfg_Name = ''Viewer'', rcfg_Description = ''reads articles'',
                    rcfg_Permissions = [''article.read'']\<rparr>"

definition viewerRole :: Role where
  "viewerRole = \<lparr>role_ID = 1, role_Key = ''viewer'', role_Name = ''Viewer'',
                  role_Description = ''reads articles'', role_Permissions = [''article.read'']\<rparr>"

definition viewerDB :: DB where
  "viewerDB = \<lparr>db_resources = [], db_actions = [], db_roles = [viewerRole],
                db_resource_seq = 0, db_action_seq = 0, db_role_seq = 1\<rparr>"

definition articleConfig :: ResourceConfig where
  "articleConfig = \<lparr>cfg_Key = ''article'', cfg_Name = ''Article'',
                     cfg_Description = ''news article'', cfg_Actions = [], cfg_SubResources = []\<rparr>"

definition articleRow :: Resource where
  "articleRow = Resource 1 ''article'' ''Article'' ''news article'' None [] []"

definition articleDB :: DB where
  "articleDB = \<lparr>db_resources = [articleRow], db_actions = [], db_roles = [],
                 db_resource_seq = 1, db_action_seq = 0, db_role_seq = 0\<rparr>"

definition commentEdit :: Resource where
  "commentEdit = Resource 0 ''comment'' ''Comment'' ''comment on an article'' None
                   [DefineAction ''edit'' ''Edit'' ''edit a comment''] []"

definition commentDelete :: Resource where
  "commentDelete = Resource 0 ''comment'' ''Comment'' ''comment on an article'' None
                     [DefineAction ''delete'' ''Delete'' ''delete a comment''] []"

definition commentRow :: Resource where
  "commentRow = Resource 2 ''comment'' ''Comment'' ''comment on an article'' (Some 1) [] []"

definition editAction :: Action where
  "editAction = \<lparr>act_ID = 1, act_Key = ''edit'', act_Name = ''Edit'',
                  act_Description = ''edit a comment'', act_ResourceID = 2\<rparr>"

definition commentDB :: DB where
  "commentDB = \<lparr>db_resources = [articleRow, commentRow], db_actions = [editAction], db_roles = [],
                 db_resource_seq = 2, db_action_seq = 1, db_role_seq = 0\<rparr>"

definition unnamedConfig :: ResourceConfig where
  "unnamedConfig = \<lparr>cfg_Key = '''', cfg_Name = ''Unnamed'', cfg_Description = ''no key'',
                     cfg_Actions = [], cfg_SubResources = []\<rparr>"

definition unnamedRow :: Resource where
  "unnamedRow = Resource 1 '''' ''Unnamed'' ''no key'' None [] []"

definition unnamedDB :: DB where
  "unnamedDB = \<lparr>db_resources = [unnamedRow], db_actions = [], db_roles = [],
                 db_resource_seq = 1, db_action_seq = 0, db_role_seq = 0\<rparr>"

section \<open>Properties of the permission matcher\<close>

lemma HasPrefix_iff: "HasPrefix s pre = (\<exists>rest. s = pre @ rest)"
proof
  assume "HasPrefix s pre"
  then have "s = pre @ drop (length pre) s"
    by (metis HasPrefix_def append_take_drop_id)
  then show "\<exists>rest. s = pre @ rest" ..
next
  assume "\<exists>rest. s = pre @ rest"
  then show "HasPrefix s pre" by (auto simp: HasPrefix_def)
qed

lemma CheckPermissions_iff:
  "CheckPermissions req gs = (\<exists>g \<in> set gs. CheckPermission req g)"
  by (induction gs) auto

text \<open>
  C1.  \<open>CheckPermission required given\<close> holds exactly when the two strings are equal, or
  \<open>required\<close> is \<open>given\<close> followed by a dot and anything, or \<open>given\<close> is \<open>required\<close>
  followed by a dot and anything.  It is not a bare prefix test: \<open>user\<close> against
  \<open>username\<close> fails in both directions, while an ancestor at any depth matches.
\<close>

theorem CheckPermission_three_way:
  "CheckPermission required given =
     (required = given
      \<or> (\<exists>rest. required = given @ ''.'' @ rest)
      \<or> (\<exists>rest. given = required @ ''.'' @ rest))
   \<and> CheckPermission ''user'' ''username'' = False
   \<and> CheckPermission ''username'' ''user'' = False
   \<and> CheckPermission ''infrastructure.vm.compute.start'' ''infrastructure'' = True
   \<and> CheckPermission (given @ ''.'' @ rest') given = True"
proof -
  have general: "CheckPermission required given =
     (required = given
      \<or> (\<exists>rest. required = given @ ''.'' @ rest)
      \<or> (\<exists>rest. given = required @ ''.'' @ rest))"
    by (simp add: CheckPermission_def HasPrefix_iff)
  have e1: "CheckPermission ''user'' ''username'' = False"
    by (simp add: CheckPermission_def HasPrefix_def)
  have e2: "CheckPermission ''username'' ''user'' = False"
    by (simp add: CheckPermission_def HasPrefix_def)
  have e3: "CheckPermission ''infrastructure.vm.compute.start'' ''infrastructure'' = True"
    by (simp add: CheckPermission_def HasPrefix_def)
  have e4: "CheckPermission (given @ ''.'' @ rest') given = True"
    by (simp add: CheckPermission_def HasPrefix_def)
  from general e1 e2 e3 e4 show ?thesis by blast
qed

text \<open>
  C6.  \<open>CheckPermission\<close> is symmetric in its two arguments.
\<close>

theorem CheckPermission_symmetric:
  "CheckPermission a b = CheckPermission b a"
  by (auto simp: CheckPermission_def)

section \<open>Storage calls of the manager\<close>

text \<open>
  Every operation of the manager, run on a traced storage, returns what it returns on the
  storage itself and adds to the log; each lemma \<open>_audit\<close> below states this together with
  the fate of the failed calls.
\<close>

lemma logged_apply:
  "logged m f (s, log) = joined (f s) (log @ [(m, outcome (fst (f s)))])"
  by (simp add: logged_def joined_def split: prod.splits)

lemma traced_simps:
  "CreateResource (traced st) resource = logged MCreateResource (CreateResource st resource)"
  "GetResource (traced st) key parentID = logged MGetResource (GetResource st key parentID)"
  "GetResourceByID (traced st) ident = logged MGetResourceByID (GetResourceByID st ident)"
  "ListResources (traced st) parentID = logged MListResources (ListResources st parentID)"
  "DeleteResource (traced st) ident = logged MDeleteResource (DeleteResource st ident)"
  "CreateActions (traced st) resourceID actions = logged MCreateActions (CreateActions st resourceID actions)"
  "CreateRole (traced st) role = logged MCreateRole (CreateRole st role)"
  "GetRole (traced st) key = logged MGetRole (GetRole st key)"
  "ListRoles (traced st) = logged MListRoles (ListRoles st)"
  "UpdateRole (traced st) role = logged MUpdateRole (UpdateRole st role)"
  "DeleteRole (traced st) ident = logged MDeleteRole (DeleteRole st ident)"
  by (simp_all add: traced_def)

lemma reported_simps:
  "reported ex res [] = True"
  "reported ex res ((m, None) # evs) = reported ex res evs"
  "reported ex res ((m, Some err) # evs) = ((res = Inl err \<or> ex m err) \<and> reported ex res evs)"
  "reported ex res (xs @ ys) = (reported ex res xs \<and> reported ex res ys)"
  by (simp_all add: reported_def)

lemma reported_cast:
  assumes "reported ex res log" and "\<And>err. res = Inl err \<Longrightarrow> res' = Inl err"
  shows "reported ex res' log"
  using assms by (induction log) (auto simp: reported_def split: option.splits)

lemma run_from_ext:
  assumes "\<And>log. f (s, log) = joined plain (log @ ext)"
  shows "f (s, log) = joined plain (log @ traceFrom f s)"
proof -
  have "traceFrom f s = ext"
    using assms[of "[]"] by (simp add: traceFrom_def joined_def)
  with assms show ?thesis by simp
qed

lemma reported_from_ext:
  assumes "\<And>log. f (s, log) = joined plain (log @ ext)" and "reported ex (fst plain) ext"
    and "\<And>err. fst plain = Inl err \<Longrightarrow> res = Inl err"
  shows "reported ex res (traceFrom f s)"
proof -
  have "traceFrom f s = ext"
    using assms(1)[of "[]"] by (simp add: traceFrom_def joined_def)
  with assms(2,3) show ?thesis by (auto intro: reported_cast)
qed

lemmas trace_simps = traced_simps logged_apply joined_def outcome_def reported_simps

lemma exemption_lambdas:
  "noExemption = (\<lambda>m err. False)"
  "missingRoleLookup = (\<lambda>m err. m = MGetRole \<and> err = ErrRoleNotFound)"
  "roleLookup = (\<lambda>m err. m = MGetRole)"
  "resourceLookup = (\<lambda>m err. m = MGetResource)"
  by (simp_all add: fun_eq_iff noExemption_def missingRoleLookup_def roleLookup_def
        resourceLookup_def)

subsection \<open>Path resolution\<close>

lemma walkKeys_ext:
  "\<exists>ext. (\<forall>log. walkKeys (traced st) key keys parentID (s, log)
             = joined (walkKeys st key keys parentID s) (log @ ext))
        \<and> reported ex (fst (walkKeys st key keys parentID s)) ext"
proof (induction keys arbitrary: key parentID s)
  case Nil
  show ?case
    by (cases "GetResource st key parentID s")
       (auto simp: trace_simps split: prod.splits sum.splits)
next
  case (Cons k ks)
  obtain r s1 where g: "GetResource st key parentID s = (r, s1)" by force
  show ?case
  proof (cases r)
    case (Inl err)
    with g show ?thesis by (auto simp: trace_simps)
  next
    case (Inr resource)
    from Cons.IH[of k "Some (res_ID resource)" s1]
    obtain ext where
      "\<And>log. walkKeys (traced st) k ks (Some (res_ID resource)) (s1, log)
           = joined (walkKeys st k ks (Some (res_ID resource)) s1) (log @ ext)"
      "reported ex (fst (walkKeys st k ks (Some (res_ID resource)) s1)) ext"
      by blast
    with g Inr show ?thesis
      by (auto simp: trace_simps intro!: exI[of _ "(MGetResource, None) # ext"])
  qed
qed

lemma getResourceByPath_ext:
  "\<exists>ext. (\<forall>log. getResourceByPath (traced st) path (s, log)
             = joined (getResourceByPath st path s) (log @ ext))
        \<and> reported ex (fst (getResourceByPath st path s)) ext"
proof (cases "parseResourcePath path")
  case Nil
  then show ?thesis
    by (auto simp: getResourceByPath_def trace_simps intro!: exI[of _ "[]"])
next
  case (Cons key keys)
  with walkKeys_ext[of st key keys None s ex] show ?thesis
    by (simp add: getResourceByPath_def)
qed

lemma getResourceByPath_run:
  "getResourceByPath (traced st) path (s, log)
     = joined (getResourceByPath st path s) (log @ traceFrom (getResourceByPath (traced st) path) s)"
  using getResourceByPath_ext[of st path s "\<lambda>_ _. False"] by (blast intro: run_from_ext)

lemma getResourceByPath_reported:
  assumes "\<And>err. fst (getResourceByPath st path s) = Inl err \<Longrightarrow> res = Inl err"
  shows "reported ex res (traceFrom (getResourceByPath (traced st) path) s)"
  using getResourceByPath_ext[of st path s ex] assms by (blast intro: reported_from_ext)

lemma getResourceByPath_audit:
  "audit (\<lambda>m err. False) (getResourceByPath (traced st) path (s, [])) (getResourceByPath st path s)"
  by (simp add: audit_def getResourceByPath_run joined_def getResourceByPath_reported)

lemma Manager_GetResource_audit:
  "audit (\<lambda>m err. False) (Manager_GetResource (traced st) path (s, [])) (Manager_GetResource st path s)"
  by (simp add: Manager_GetResource_def getResourceByPath_audit)

lemma AddActions_audit:
  "audit (\<lambda>m err. False) (AddActions (traced st) path actions (s, [])) (AddActions st path actions s)"
  by (auto simp: audit_def AddActions_def getResourceByPath_run trace_simps
      split: prod.splits sum.splits intro!: getResourceByPath_reported)

lemma Manager_DeleteResource_audit:
  "audit (\<lambda>m err. False) (Manager_DeleteResource (traced st) path (s, [])) (Manager_DeleteResource st path s)"
  by (auto simp: audit_def Manager_DeleteResource_def getResourceByPath_run trace_simps
      split: prod.splits sum.splits intro!: getResourceByPath_reported)

subsection \<open>Operations without a loop\<close>

lemma Manager_ListResources_audit:
  "audit (\<lambda>m err. False) (Manager_ListResources (traced st) (s, [])) (Manager_ListResources st s)"
  by (auto simp: audit_def Manager_ListResources_def trace_simps split: prod.splits sum.splits)

lemma Manager_CreateRole_audit:
  "audit (\<lambda>m err. m = MGetRole) (Manager_CreateRole (traced st) key config (s, []))
     (Manager_CreateRole st key config s)"
  by (auto simp: audit_def Manager_CreateRole_def trace_simps split: prod.splits sum.splits)

lemma AssignPermissions_audit:
  "audit (\<lambda>m err. False) (AssignPermissions (traced st) roleKey permissions (s, []))
     (AssignPermissions st roleKey permissions s)"
  by (auto simp: audit_def AssignPermissions_def trace_simps Let_def split: prod.splits sum.splits)

lemma RemovePermissions_audit:
  "audit (\<lambda>m err. False) (RemovePermissions (traced st) roleKey permissions (s, []))
     (RemovePermissions st roleKey permissions s)"
  by (auto simp: audit_def RemovePermissions_def trace_simps Let_def split: prod.splits sum.splits)

lemma Manager_GetRole_audit:
  "audit (\<lambda>m err. False) (Manager_GetRole (traced st) key (s, [])) (Manager_GetRole st key s)"
  by (auto simp: audit_def Manager_GetRole_def trace_simps split: prod.splits sum.splits)

lemma Manager_ListRoles_audit:
  "audit (\<lambda>m err. False) (Manager_ListRoles (traced st) (s, [])) (Manager_ListRoles st s)"
  by (auto simp: audit_def Manager_ListRoles_def trace_simps split: prod.splits sum.splits)

lemma Manager_DeleteRole_audit:
  "audit (\<lambda>m err. False) (Manager_DeleteRole (traced st) key (s, [])) (Manager_DeleteRole st key s)"
  by (auto simp: audit_def Manager_DeleteRole_def trace_simps split: prod.splits sum.splits)

lemma CheckRolePermission_audit:
  "audit (\<lambda>m err. False) (CheckRolePermission (traced st) roleKey req (s, []))
     (CheckRolePermission st roleKey req s)"
  by (auto simp: audit_def CheckRolePermission_def trace_simps split: prod.splits sum.splits)

subsection \<open>Operations with a loop\<close>

lemma CheckRolesPermission_ext:
  "\<exists>ext. (\<forall>log. CheckRolesPermission (traced st) roleKeys req (s, log)
             = joined (CheckRolesPermission st roleKeys req s) (log @ ext))
        \<and> reported (\<lambda>m err. m = MGetRole \<and> err = ErrRoleNotFound)
            (fst (CheckRolesPermission st roleKeys req s)) ext"
proof (induction roleKeys arbitrary: s)
  case Nil
  show ?case by (auto simp: trace_simps intro!: exI[of _ "[]"])
next
  case (Cons roleKey roleKeys)
  obtain r s1 where g: "GetRole st roleKey s = (r, s1)" by force
  from Cons.IH[of s1] obtain ext where
    ih: "\<And>log. CheckRolesPermission (traced st) roleKeys req (s1, log)
           = joined (CheckRolesPermission st roleKeys req s1) (log @ ext)"
      "reported (\<lambda>m err. m = MGetRole \<and> err = ErrRoleNotFound)
         (fst (CheckRolesPermission st roleKeys req s1)) ext"
    by blast
  show ?case
  proof (cases r)
    case (Inl err)
    with g ih show ?thesis
      by (auto simp: CheckRolePermission_def trace_simps
          intro!: exI[of _ "(MGetRole, Some err) # ext"])
  next
    case (Inr role)
    with g ih show ?thesis
      by (auto simp: CheckRolePermission_def trace_simps
          intro!: exI[of _ "(MGetRole, None) # ext"])
  qed
qed

lemma CheckRolesPermission_audit:
  "audit (\<lambda>m err. m = MGetRole \<and> err = ErrRoleNotFound)
     (CheckRolesPermission (traced st) roleKeys req (s, []))
     (CheckRolesPermission st roleKeys req s)"
  using CheckRolesPermission_ext[of st roleKeys req s]
  by (auto simp: audit_def joined_def)

lemma createSubResources_ext:
  "\<exists>ext. (\<forall>log. createSubResources (traced st) parentID subs (s, log)
             = joined (createSubResources st parentID subs s) (log @ ext))
        \<and> reported ex (fst (createSubResources st parentID subs s)) ext"
proof (induction subs arbitrary: s)
  case Nil
  show ?case by (auto simp: trace_simps intro!: exI[of _ "[]"])
next
  case (Cons subConfig rest)
  let ?new = "Resource 0 (res_Key subConfig) (res_Name subConfig) (res_Description subConfig)
                (Some parentID) [] []"
  obtain r s1 where g: "CreateResource st ?new s = (r, s1)" by force
  show ?case
  proof (cases r)
    case (Inl err)
    with g show ?thesis by (auto simp: trace_simps)
  next
    case (Inr subResource)
    show ?thesis
    proof (cases "length (res_Actions subConfig) > 0")
      case False
      from Cons.IH[of s1] obtain ext where
        "\<And>log. createSubResources (traced st) parentID rest (s1, log)
           = joined (createSubResources st parentID rest s1) (log @ ext)"
        "reported ex (fst (createSubResources st parentID rest s1)) ext"
        by blast
      with g Inr False show ?thesis
        by (auto simp: trace_simps intro!: exI[of _ "(MCreateResource, None) # ext"])
    next
      case True
      obtain r2 s2 where
        g2: "CreateActions st (res_ID subResource) (res_Actions subConfig) s1 = (r2, s2)"
        by force
      show ?thesis
      proof (cases r2)
        case (Inl err)
        with g Inr True g2 show ?thesis by (auto simp: trace_simps)
      next
        case (Inr u)
        from Cons.IH[of s2] obtain ext where
          "\<And>log. createSubResources (traced st) parentID rest (s2, log)
             = joined (createSubResources st parentID rest s2) (log @ ext)"
          "reported ex (fst (createSubResources st parentID rest s2)) ext"
          by blast
        with g \<open>r = Inr subResource\<close> True g2 Inr show ?thesis
          by (auto simp: trace_simps
              intro!: exI[of _ "(MCreateResource, None) # (MCreateActions, None) # ext"])
      qed
    qed
  qed
qed

lemma createSubResources_run:
  "createSubResources (traced st) parentID subs (s, log)
     = joined (createSubResources st parentID subs s)
         (log @ traceFrom (createSubResources (traced st) parentID subs) s)"
  using createSubResources_ext[of st parentID subs s "\<lambda>_ _. False"] by (blast intro: run_from_ext)

lemma createSubResources_reported:
  assumes "\<And>err. fst (createSubResources st parentID subs s) = Inl err \<Longrightarrow> res = Inl err"
  shows "reported ex res (traceFrom (createSubResources (traced st) parentID subs) s)"
  using createSubResources_ext[of st parentID subs s ex] assms by (blast intro: reported_from_ext)

lemma Manager_CreateResource_audit:
  "audit (\<lambda>m err. m = MGetResource) (Manager_CreateResource (traced st) config (s, []))
     (Manager_CreateResource st config s)"
proof -
  let ?new = "Resource 0 (cfg_Key config) (cfg_Name config) (cfg_Description config) None [] []"
  obtain r0 s0 where g0: "GetResource st (cfg_Key config) None s = (r0, s0)" by force
  show ?thesis
  proof (cases r0)
    case (Inr existing)
    with g0 show ?thesis
      by (simp add: audit_def Manager_CreateResource_def trace_simps)
  next
    case e0: (Inl err0)
    obtain r1 s1 where g1: "CreateResource st ?new s0 = (r1, s1)" by force
    show ?thesis
    proof (cases r1)
      case (Inl err)
      with g0 e0 g1 show ?thesis
        by (simp add: audit_def Manager_CreateResource_def trace_simps)
    next
      case r1: (Inr resource)
      show ?thesis
      proof (cases "length (cfg_Actions config) > 0")
        case True
        obtain r2 s2 where
          g2: "CreateActions st (res_ID resource) (cfg_Actions config) s1 = (r2, s2)" by force
        show ?thesis
        proof (cases r2)
          case (Inl err)
          with g0 e0 g1 r1 True g2 show ?thesis
            by (simp add: audit_def Manager_CreateResource_def trace_simps)
        next
          case r2: (Inr u)
          obtain r3 s3 where
            g3: "createSubResources st (res_ID resource) (cfg_SubResources config) s2 = (r3, s3)"
            by force
          show ?thesis
          proof (cases r3)
            case (Inl err)
            with g0 e0 g1 r1 True g2 r2 g3 show ?thesis
              by (auto simp: audit_def Manager_CreateResource_def createSubResources_run
                    trace_simps intro!: createSubResources_reported)
          next
            case (Inr u3)
            with g0 e0 g1 r1 True g2 r2 g3 show ?thesis
              by (cases "GetResourceByID st (res_ID resource) s3")
                 (auto simp: audit_def Manager_CreateResource_def createSubResources_run
                    trace_simps split: sum.splits intro!: createSubResources_reported)
          qed
        qed
      next
        case False
        obtain r3 s3 where
          g3: "createSubResources st (res_ID resource) (cfg_SubResources config) s1 = (r3, s3)"
          by force
        show ?thesis
        proof (cases r3)
          case (Inl err)
          with g0 e0 g1 r1 False g3 show ?thesis
            by (auto simp: audit_def Manager_CreateResource_def createSubResources_run
                  trace_simps intro!: createSubResources_reported)
        next
          case (Inr u3)
          with g0 e0 g1 r1 False g3 show ?thesis
            by (cases "GetResourceByID st (res_ID resource) s3")
               (auto simp: audit_def Manager_CreateResource_def createSubResources_run
                  trace_simps split: sum.splits intro!: createSubResources_reported)
        qed
      qed
    qed
  qed
qed

lemma createResourcesLoop_ext:
  "\<exists>ext. (\<forall>log. createResourcesLoop (traced st) parent subs (s, log)
             = joined (createResourcesLoop st parent subs s) (log @ ext))
        \<and> reported (\<lambda>m err. m = MGetResource) (fst (createResourcesLoop st parent subs s)) ext"
proof (induction subs arbitrary: s)
  case Nil
  show ?case by (auto simp: trace_simps intro!: exI[of _ "[]"])
next
  case (Cons subConfig rest)
  let ?new = "Resource 0 (res_Key subConfig) (res_Name subConfig) (res_Description subConfig)
                (Some (res_ID parent)) [] []"
  let ?P = "\<lambda>s' ext. (\<forall>log. createResourcesLoop (traced st) parent rest (s', log)
             = joined (createResourcesLoop st parent rest s') (log @ ext))
        \<and> reported (\<lambda>m err. m = MGetResource) (fst (createResourcesLoop st parent rest s')) ext"
  obtain r0 s0 where g0: "GetResource st (res_Key subConfig) (Some (res_ID parent)) s = (r0, s0)"
    by force
  show ?case
  proof (cases r0)
    case r0: (Inr existing)
    show ?thesis
    proof (cases "length (res_Actions subConfig) > 0")
      case False
      from Cons.IH[of s0] obtain ext where "?P s0 ext" by blast
      with g0 r0 False show ?thesis
        by (auto simp: trace_simps intro!: exI[of _ "(MGetResource, None) # ext"])
    next
      case True
      obtain r1 s1 where
        g1: "CreateActions st (res_ID existing) (res_Actions subConfig) s0 = (r1, s1)" by force
      show ?thesis
      proof (cases r1)
        case (Inl err)
        with g0 r0 True g1 show ?thesis by (auto simp: trace_simps)
      next
        case (Inr u)
        from Cons.IH[of s1] obtain ext where "?P s1 ext" by blast
        with g0 r0 True g1 Inr show ?thesis
          by (auto simp: trace_simps
              intro!: exI[of _ "(MGetResource, None) # (MCreateActions, None) # ext"])
      qed
    qed
  next
    case r0: (Inl err0)
    obtain r1 s1 where g1: "CreateResource st ?new s0 = (r1, s1)" by force
    show ?thesis
    proof (cases r1)
      case (Inl err)
      with g0 r0 g1 show ?thesis by (auto simp: trace_simps)
    next
      case r1: (Inr subResource)
      show ?thesis
      proof (cases "length (res_Actions subConfig) > 0")
        case False
        from Cons.IH[of s1] obtain ext where "?P s1 ext" by blast
        with g0 r0 g1 r1 False show ?thesis
          by (auto simp: trace_simps
              intro!: exI[of _ "(MGetResource, Some err0) # (MCreateResource, None) # ext"])
      next
        case True
        obtain r2 s2 where
          g2: "CreateActions st (res_ID subResource) (res_Actions subConfig) s1 = (r2, s2)"
          by force
        show ?thesis
        proof (cases r2)
          case (Inl err)
          with g0 r0 g1 r1 True g2 show ?thesis by (auto simp: trace_simps)
        next
          case (Inr u)
          from Cons.IH[of s2] obtain ext where "?P s2 ext" by blast
          with g0 r0 g1 r1 True g2 Inr show ?thesis
            by (auto simp: trace_simps
                intro!: exI[of _ "(MGetResource, Some err0) # (MCreateResource, None)
                                    # (MCreateActions, None) # ext"])
        qed
      qed
    qed
  qed
qed

lemma createResourcesLoop_run:
  "createResourcesLoop (traced st) parent subs (s, log)
     = joined (createResourcesLoop st parent subs s)
         (log @ traceFrom (createResourcesLoop (traced st) parent subs) s)"
  using createResourcesLoop_ext[of st parent subs s] by (blast intro: run_from_ext)

lemma createResourcesLoop_reported:
  assumes "\<And>err. fst (createResourcesLoop st parent subs s) = Inl err \<Longrightarrow> res = Inl err"
  shows "reported (\<lambda>m err. m = MGetResource) res
           (traceFrom (createResourcesLoop (traced st) parent subs) s)"
  using createResourcesLoop_ext[of st parent subs s] assms by (blast intro: reported_from_ext)

lemma CreateResources_audit:
  "audit (\<lambda>m err. m = MGetResource) (CreateResources (traced st) parentPath subs (s, []))
     (CreateResources st parentPath subs s)"
proof -
  obtain r0 s0 where g0: "getResourceByPath st parentPath s = (r0, s0)" by force
  show ?thesis
  proof (cases r0)
    case (Inl err)
    with g0 show ?thesis
      by (auto simp: audit_def CreateResources_def getResourceByPath_run trace_simps
          intro!: getResourceByPath_reported)
  next
    case (Inr parent)
    with g0 show ?thesis
      by (auto simp: audit_def CreateResources_def getResourceByPath_run
            createResourcesLoop_run trace_simps
          intro!: getResourceByPath_reported createResourcesLoop_reported)
  qed
qed

lemma CreateResources_resolution_failure:
  "fst (getResourceByPath st parentPath s) = Inl err \<Longrightarrow>
   fst (CreateResources st parentPath subs s) = Inl err"
  by (auto simp: CreateResources_def split: prod.splits sum.splits)

section \<open>Resource paths\<close>

text \<open>
  Splitting never gives the empty list, and an operation returns \<open>ErrInvalidResourcePath\<close>
  only if the storage does.
\<close>

lemma splitOn_nonempty: "splitOn sep seg rest \<noteq> []"
  by (induction rest arbitrary: seg) auto

lemma parseResourcePath_nonempty: "parseResourcePath path \<noteq> []"
  by (simp add: parseResourcePath_def splitOn_nonempty)

lemma returnsNoD:
  assumes "returnsNo e st"
  shows "fst (CreateResource st r s) \<noteq> Inl e"
    and "fst (GetResource st k p s) \<noteq> Inl e"
    and "fst (GetResourceByID st i s) \<noteq> Inl e"
    and "fst (ListResources st p s) \<noteq> Inl e"
    and "fst (DeleteResource st i s) \<noteq> Inl e"
    and "fst (CreateActions st i as s) \<noteq> Inl e"
    and "fst (CreateRole st role s) \<noteq> Inl e"
    and "fst (GetRole st k s) \<noteq> Inl e"
    and "fst (ListRoles st s) \<noteq> Inl e"
    and "fst (UpdateRole st role s) \<noteq> Inl e"
    and "fst (DeleteRole st i s) \<noteq> Inl e"
  using assms unfolding returnsNo_def by blast+

lemma composed_clean:
  assumes "fst (f s) \<noteq> Inl e" and "\<And>v s'. fst (g v s') \<noteq> Inl e"
  shows "fst (case f s of (Inl err, s') \<Rightarrow> (Inl err, s') | (Inr v, s') \<Rightarrow> g v s') \<noteq> Inl e"
  using assms by (cases "f s") (auto split: sum.splits)

lemma walkKeys_clean:
  assumes "returnsNo e st"
  shows "fst (walkKeys st key keys parentID s) \<noteq> Inl e"
proof (induction keys arbitrary: key parentID s)
  case Nil
  show ?case using returnsNoD(2)[OF assms, of key parentID s]
    by (cases "GetResource st key parentID s") (auto split: sum.splits)
next
  case (Cons k ks)
  show ?case using returnsNoD(2)[OF assms, of key parentID s] Cons
    by (cases "GetResource st key parentID s") (auto split: sum.splits)
qed

lemma getResourceByPath_clean:
  assumes "returnsNo ErrInvalidResourcePath st"
  shows "fst (getResourceByPath st path s) \<noteq> Inl ErrInvalidResourcePath"
  using parseResourcePath_nonempty[of path] walkKeys_clean[OF assms]
  by (cases "parseResourcePath path") (simp_all add: getResourceByPath_def)

lemma createSubResources_clean:
  assumes "returnsNo e st"
  shows "fst (createSubResources st parentID subs s) \<noteq> Inl e"
proof (induction subs arbitrary: s)
  case Nil
  show ?case by simp
next
  case (Cons subConfig rest)
  let ?new = "Resource 0 (res_Key subConfig) (res_Name subConfig) (res_Description subConfig)
                (Some parentID) [] []"
  obtain r1 s1 where g1: "CreateResource st ?new s = (r1, s1)" by force
  show ?case
  proof (cases r1)
    case (Inl err)
    with g1 returnsNoD(1)[OF assms, of ?new s] show ?thesis by simp
  next
    case (Inr sub)
    obtain r2 s2 where g2: "CreateActions st (res_ID sub) (res_Actions subConfig) s1 = (r2, s2)"
      by force
    with g1 Inr returnsNoD(6)[OF assms, of "res_ID sub" "res_Actions subConfig" s1] Cons
    show ?thesis by (cases r2) auto
  qed
qed

lemma createResourcesLoop_clean:
  assumes "returnsNo e st"
  shows "fst (createResourcesLoop st parent subs s) \<noteq> Inl e"
proof (induction subs arbitrary: s)
  case Nil
  show ?case by simp
next
  case (Cons subConfig rest)
  let ?new = "Resource 0 (res_Key subConfig) (res_Name subConfig) (res_Description subConfig)
                (Some (res_ID parent)) [] []"
  obtain r0 s0 where g0: "GetResource st (res_Key subConfig) (Some (res_ID parent)) s = (r0, s0)"
    by force
  show ?case
  proof (cases r0)
    case (Inr existing)
    obtain r1 s1 where
      g1: "CreateActions st (res_ID existing) (res_Actions subConfig) s0 = (r1, s1)" by force
    with g0 Inr returnsNoD(6)[OF assms, of "res_ID existing" "res_Actions subConfig" s0] Cons
    show ?thesis by (cases r1) auto
  next
    case r0: (Inl err0)
    obtain r1 s1 where g1: "CreateResource st ?new s0 = (r1, s1)" by force
    show ?thesis
    proof (cases r1)
      case (Inl err)
      with g0 r0 g1 returnsNoD(1)[OF assms, of ?new s0] show ?thesis by simp
    next
      case (Inr sub)
      obtain r2 s2 where g2: "CreateActions st (res_ID sub) (res_Actions subConfig) s1 = (r2, s2)"
        by force
      with g0 r0 g1 Inr returnsNoD(6)[OF assms, of "res_ID sub" "res_Actions subConfig" s1] Cons
      show ?thesis by (cases r2) auto
    qed
  qed
qed

lemma CheckRolesPermission_clean:
  assumes "returnsNo e st"
  shows "fst (CheckRolesPermission st roleKeys req s) \<noteq> Inl e"
proof (induction roleKeys arbitrary: s)
  case Nil
  show ?case by simp
next
  case (Cons k ks)
  show ?case using returnsNoD(8)[OF assms, of k s] Cons
    by (cases "GetRole st k s") (auto simp: CheckRolePermission_def split: sum.splits)
qed

lemma Manager_CreateResource_clean:
  assumes "returnsNo ErrInvalidResourcePath st"
  shows "fst (Manager_CreateResource st config s) \<noteq> Inl ErrInvalidResourcePath"
proof -
  let ?new = "Resource 0 (cfg_Key config) (cfg_Name config) (cfg_Description config) None [] []"
  obtain r0 s0 where g0: "GetResource st (cfg_Key config) None s = (r0, s0)" by force
  show ?thesis
  proof (cases r0)
    case (Inr existing)
    with g0 show ?thesis by (simp add: Manager_CreateResource_def)
  next
    case r0: (Inl err0)
    obtain r1 s1 where g1: "CreateResource st ?new s0 = (r1, s1)" by force
    show ?thesis
    proof (cases r1)
      case (Inl err)
      with g0 r0 g1 returnsNoD(1)[OF assms, of ?new s0] show ?thesis
        by (simp add: Manager_CreateResource_def)
    next
      case r1: (Inr resource)
      obtain r2 s2 where g2:
        "(if length (cfg_Actions config) > 0
          then CreateActions st (res_ID resource) (cfg_Actions config) s1
          else (Inr (), s1)) = (r2, s2)" by force
      show ?thesis
      proof (cases r2)
        case (Inl err)
        with g2 returnsNoD(6)[OF assms, of "res_ID resource" "cfg_Actions config" s1]
        have "err \<noteq> ErrInvalidResourcePath" by (auto split: if_splits)
        with g0 r0 g1 r1 g2 Inl show ?thesis by (simp add: Manager_CreateResource_def)
      next
        case r2: (Inr u)
        obtain r3 s3 where
          g3: "createSubResources st (res_ID resource) (cfg_SubResources config) s2 = (r3, s3)"
          by force
        with createSubResources_clean[OF assms, of "res_ID resource" "cfg_SubResources config" s2]
        have c3: "r3 \<noteq> Inl ErrInvalidResourcePath" by simp
        from g0 r0 g1 r1 g2 r2 g3 c3 returnsNoD(3)[OF assms, of "res_ID resource" s3]
        show ?thesis by (cases r3) (auto simp: Manager_CreateResource_def)
      qed
    qed
  qed
qed

lemma AddActions_clean:
  assumes "returnsNo ErrInvalidResourcePath st"
  shows "fst (AddActions st path actions s) \<noteq> Inl ErrInvalidResourcePath"
  unfolding AddActions_def
  by (rule composed_clean) (simp_all add: getResourceByPath_clean[OF assms] returnsNoD[OF assms])

lemma CreateResources_clean:
  assumes "returnsNo ErrInvalidResourcePath st"
  shows "fst (CreateResources st path subs s) \<noteq> Inl ErrInvalidResourcePath"
  unfolding CreateResources_def
  by (rule composed_clean)
     (simp_all add: getResourceByPath_clean[OF assms] createResourcesLoop_clean[OF assms])

lemma Manager_DeleteResource_clean:
  assumes "returnsNo ErrInvalidResourcePath st"
  shows "fst (Manager_DeleteResource st path s) \<noteq> Inl ErrInvalidResourcePath"
  unfolding Manager_DeleteResource_def
  by (rule composed_clean) (simp_all add: getResourceByPath_clean[OF assms] returnsNoD[OF assms])

lemma Manager_CreateRole_clean:
  assumes "returnsNo ErrInvalidResourcePath st"
  shows "fst (Manager_CreateRole st key config s) \<noteq> Inl ErrInvalidResourcePath"
proof -
  let ?role = "\<lparr>role_ID = 0, role_Key = key, role_Name = rcfg_Name config,
                   role_Description = rcfg_Description config,
                   role_Permissions = rcfg_Permissions config\<rparr>"
  obtain r0 s0 where g0: "GetRole st key s = (r0, s0)" by force
  obtain r1 s1 where g1: "CreateRole st ?role s0 = (r1, s1)" by force
  with returnsNoD(7)[OF assms, of ?role s0] have "r1 \<noteq> Inl ErrInvalidResourcePath" by simp
  with g0 g1 show ?thesis
    by (cases r0; cases r1) (simp_all add: Manager_CreateRole_def)
qed

lemma AssignPermissions_clean:
  assumes "returnsNo ErrInvalidResourcePath st"
  shows "fst (AssignPermissions st roleKey permissions s) \<noteq> Inl ErrInvalidResourcePath"
  unfolding AssignPermissions_def Let_def
  by (rule composed_clean) (simp_all add: returnsNoD[OF assms])

lemma RemovePermissions_clean:
  assumes "returnsNo ErrInvalidResourcePath st"
  shows "fst (RemovePermissions st roleKey permissions s) \<noteq> Inl ErrInvalidResourcePath"
  unfolding RemovePermissions_def Let_def
  by (rule composed_clean) (simp_all add: returnsNoD[OF assms])

lemma Manager_DeleteRole_clean:
  assumes "returnsNo ErrInvalidResourcePath st"
  shows "fst (Manager_DeleteRole st key s) \<noteq> Inl ErrInvalidResourcePath"
  unfolding Manager_DeleteRole_def
  by (rule composed_clean) (simp_all add: returnsNoD[OF assms])

lemma CheckRolePermission_clean:
  assumes "returnsNo ErrInvalidResourcePath st"
  shows "fst (CheckRolePermission st roleKey req s) \<noteq> Inl ErrInvalidResourcePath"
  unfolding CheckRolePermission_def
  by (rule composed_clean) (simp_all add: returnsNoD[OF assms])

section \<open>Permission lists of a role\<close>

lemma markAll_eq: "markAll ps m = (\<lambda>p. m p \<or> p \<in> set ps)"
  by (induction ps arbitrary: m) (auto simp: fun_eq_iff)

lemma markAll_empty: "markAll ps (\<lambda>_. False) = (\<lambda>p. p \<in> set ps)"
  by (simp add: markAll_eq)

lemma set_keepFirst: "set (keepFirst ps) = set ps"
  by (induction ps) auto

lemma keepFirst_filter: "filter P (keepFirst ps) = keepFirst (filter P ps)"
proof (induction ps)
  case Nil
  show ?case by simp
next
  case (Cons p ps)
  have swap: "filter P (filter (\<lambda>q. q \<noteq> p) (keepFirst ps))
        = filter (\<lambda>q. q \<noteq> p) (filter P (keepFirst ps))"
    by (simp add: conj_commute)
  show ?case
  proof (cases "P p")
    case True
    with Cons swap show ?thesis by simp
  next
    case False
    then have "p \<notin> set (keepFirst (filter P ps))" by (simp add: set_keepFirst)
    then have "filter (\<lambda>q. q \<noteq> p) (keepFirst (filter P ps)) = keepFirst (filter P ps)"
      by (auto simp: filter_id_conv)
    with Cons swap False show ?thesis by simp
  qed
qed

lemma distinct_keepFirst: "distinct (keepFirst ps)"
  by (induction ps) (auto simp: set_keepFirst)

lemma appendMissing_eq:
  "appendMissing ps permMap acc = acc @ keepFirst (filter (\<lambda>p. \<not> permMap p) ps)"
proof (induction ps arbitrary: permMap acc)
  case Nil
  show ?case by simp
next
  case (Cons p ps)
  show ?case
  proof (cases "permMap p")
    case True
    with Cons show ?thesis by simp
  next
    case False
    have marked: "filter (\<lambda>q. \<not> (permMap(p := True)) q) ps
          = filter (\<lambda>q. q \<noteq> p) (filter (\<lambda>q. \<not> permMap q) ps)"
      by (induction ps) auto
    have "appendMissing (p # ps) permMap acc
          = appendMissing ps (permMap(p := True)) (acc @ [p])"
      using False by simp
    also have "\<dots> = (acc @ [p]) @ keepFirst (filter (\<lambda>q. \<not> (permMap(p := True)) q) ps)"
      by (rule Cons)
    also have "\<dots> = acc @ p # filter (\<lambda>q. q \<noteq> p) (keepFirst (filter (\<lambda>q. \<not> permMap q) ps))"
      by (simp only: marked keepFirst_filter append_assoc append_Cons append_Nil)
    also have "\<dots> = acc @ keepFirst (filter (\<lambda>q. \<not> permMap q) (p # ps))"
      using False by simp
    finally show ?thesis .
  qed
qed

lemma keepUnmarked_eq:
  "keepUnmarked ps toRemove acc = acc @ filter (\<lambda>p. \<not> toRemove p) ps"
  by (induction ps arbitrary: acc) auto

lemma count_list_distinct: "distinct xs \<Longrightarrow> x \<in> set xs \<Longrightarrow> count_list xs x = 1"
  by (induction xs) (auto simp: count_list_0_iff)

lemma count_list_absent: "x \<notin> set xs \<Longrightarrow> count_list xs x = 0"
  by (simp add: count_list_0_iff)

lemma AssignPermissions_stepwise:
  "(GetRole st roleKey s = (Inl err, s') \<longrightarrow>
      AssignPermissions st roleKey permissions s = (Inl err, s'))
   \<and> (GetRole st roleKey s = (Inr role, s') \<longrightarrow>
      AssignPermissions st roleKey permissions s =
        UpdateRole st
          (role\<lparr>role_Permissions :=
                   role_Permissions role @
                   keepFirst (filter (\<lambda>p. p \<notin> set (role_Permissions role)) permissions)\<rparr>) s')
   \<and> count_list (appendMissing permissions (markAll old (\<lambda>_. False)) old) p
       = (if p \<in> set old then count_list old p else if p \<in> set permissions then 1 else 0)
   \<and> (''a'' \<notin> set old \<and> ''b'' \<notin> set old \<longrightarrow>
      appendMissing [''a'', ''a'', ''b''] (markAll old (\<lambda>_. False)) old = old @ [''a'', ''b''])"
proof (intro conjI impI)
  assume "GetRole st roleKey s = (Inl err, s')"
  then show "AssignPermissions st roleKey permissions s = (Inl err, s')"
    by (simp add: AssignPermissions_def)
next
  assume "GetRole st roleKey s = (Inr role, s')"
  then show "AssignPermissions st roleKey permissions s =
        UpdateRole st
          (role\<lparr>role_Permissions :=
                   role_Permissions role @
                   keepFirst (filter (\<lambda>p. p \<notin> set (role_Permissions role)) permissions)\<rparr>) s'"
    by (simp add: AssignPermissions_def markAll_empty appendMissing_eq)
next
  let ?new = "keepFirst (filter (\<lambda>p. p \<notin> set old) permissions)"
  have new: "count_list ?new p = (if p \<notin> set old \<and> p \<in> set permissions then 1 else 0)"
  proof (cases "p \<in> set ?new")
    case True
    then have "count_list ?new p = 1"
      by (simp add: count_list_distinct distinct_keepFirst)
    with True show ?thesis by (simp add: set_keepFirst)
  next
    case False
    then have "count_list ?new p = 0" by (simp add: count_list_absent)
    with False show ?thesis by (auto simp: set_keepFirst)
  qed
  have "count_list (appendMissing permissions (markAll old (\<lambda>_. False)) old) p
        = count_list old p + count_list ?new p"
    by (simp add: markAll_empty appendMissing_eq)
  with new show "count_list (appendMissing permissions (markAll old (\<lambda>_. False)) old) p
       = (if p \<in> set old then count_list old p else if p \<in> set permissions then 1 else 0)"
    by (simp add: count_list_absent)
next
  assume "''a'' \<notin> set old \<and> ''b'' \<notin> set old"
  then show "appendMissing [''a'', ''a'', ''b''] (markAll old (\<lambda>_. False)) old = old @ [''a'', ''b'']"
    by (simp add: markAll_empty appendMissing_eq)
qed

lemma RemovePermissions_stepwise:
  "(GetRole st roleKey s = (Inl err, s') \<longrightarrow>
      RemovePermissions st roleKey permissions s = (Inl err, s'))
   \<and> (GetRole st roleKey s = (Inr role, s') \<longrightarrow>
      RemovePermissions st roleKey permissions s =
        UpdateRole st
          (role\<lparr>role_Permissions :=
                   filter (\<lambda>p. p \<notin> set permissions) (role_Permissions role)\<rparr>) s')
   \<and> (GetRole st roleKey s = (Inr role, s') \<and> set permissions \<inter> set (role_Permissions role) = {} \<longrightarrow>
      RemovePermissions st roleKey permissions s = UpdateRole st role s')"
proof (intro conjI impI)
  assume "GetRole st roleKey s = (Inl err, s')"
  then show "RemovePermissions st roleKey permissions s = (Inl err, s')"
    by (simp add: RemovePermissions_def)
next
  assume "GetRole st roleKey s = (Inr role, s')"
  then show "RemovePermissions st roleKey permissions s =
        UpdateRole st
          (role\<lparr>role_Permissions :=
                   filter (\<lambda>p. p \<notin> set permissions) (role_Permissions role)\<rparr>) s'"
    by (simp add: RemovePermissions_def markAll_empty keepUnmarked_eq)
next
  assume a: "GetRole st roleKey s = (Inr role, s') \<and> set permissions \<inter> set (role_Permissions role) = {}"
  then have "filter (\<lambda>p. p \<notin> set permissions) (role_Permissions role) = role_Permissions role"
    by (auto simp: filter_id_conv)
  with a show "RemovePermissions st roleKey permissions s = UpdateRole st role s'"
    by (simp add: RemovePermissions_def markAll_empty keepUnmarked_eq)
qed

lemma CheckRolesPermission_first_decisive:
  assumes "\<forall>k \<in> set roleKeys. snd (GetRole st k s) = s"
  shows "CheckRolesPermission st roleKeys req s =
           (case find (\<lambda>k. decisive req (fst (GetRole st k s))) roleKeys of
              None \<Rightarrow> (Inr False, s)
            | Some k \<Rightarrow> (verdict (fst (GetRole st k s)), s))"
  using assms
proof (induction roleKeys)
  case Nil
  show ?case by simp
next
  case (Cons k ks)
  obtain r s1 where g: "GetRole st k s = (r, s1)" by force
  with Cons.prems have s1: "s1 = s" by simp
  from Cons have ih: "CheckRolesPermission st ks req s =
           (case find (\<lambda>k. decisive req (fst (GetRole st k s))) ks of
              None \<Rightarrow> (Inr False, s)
            | Some k \<Rightarrow> (verdict (fst (GetRole st k s)), s))" by simp
  show ?case
  proof (cases r)
    case (Inl err)
    with g s1 ih show ?thesis
      by (simp add: CheckRolePermission_def decisive_def verdict_def)
  next
    case (Inr role)
    with g s1 ih show ?thesis
      by (simp add: CheckRolePermission_def decisive_def verdict_def)
  qed
qed

section \<open>The manager on the GORM backend\<close>

lemma GormStorage_simps:
  "CreateResource GormStorage = Gorm_CreateResource"
  "GetResource GormStorage = Gorm_GetResource"
  "GetResourceByID GormStorage = Gorm_GetResourceByID"
  "ListResources GormStorage = Gorm_ListResources"
  "DeleteResource GormStorage = Gorm_DeleteResource"
  "CreateActions GormStorage = Gorm_CreateActions"
  "CreateRole GormStorage = Gorm_CreateRole"
  "GetRole GormStorage = Gorm_GetRole"
  "ListRoles GormStorage = Gorm_ListRoles"
  "UpdateRole GormStorage = Gorm_UpdateRole"
  "DeleteRole GormStorage = Gorm_DeleteRole"
  by (simp_all add: GormStorage_def)

lemmas Gorm_defs = Gorm_CreateResource_def Gorm_GetResource_def
      Gorm_GetResourceByID_def Gorm_ListResources_def Gorm_DeleteResource_def
      Gorm_CreateActions_def Gorm_CreateRole_def Gorm_GetRole_def Gorm_ListRoles_def
      Gorm_UpdateRole_def Gorm_DeleteRole_def preload_def Let_def maxRowID_def

lemmas example_defs = viewerConfig_def viewerRole_def viewerDB_def articleConfig_def articleRow_def
  articleDB_def commentEdit_def commentDelete_def commentRow_def editAction_def commentDB_def
  emptyDB_def DefineAction_def

lemma lockedOn_simps:
  "GetResource (lockedOn k) key parentID db =
     (if key = k then (Inl (ErrOther ''database is locked''), db)
      else Gorm_GetResource key parentID db)"
  "GetRole (lockedOn k) key db =
     (if key = k then (Inl (ErrOther ''database is locked''), db) else Gorm_GetRole key db)"
  "CreateResource (lockedOn k) = Gorm_CreateResource"
  "GetResourceByID (lockedOn k) = Gorm_GetResourceByID"
  "CreateActions (lockedOn k) = Gorm_CreateActions"
  "CreateRole (lockedOn k) = Gorm_CreateRole"
  "UpdateRole (lockedOn k) = Gorm_UpdateRole"
  by (simp_all add: lockedOn_def GormStorage_def)

lemma insertActions_error:
  "insertActions as rows counter = Inl err \<Longrightarrow> \<exists>msg. err = ErrOther msg"
proof (induction as arbitrary: rows counter)
  case Nil
  then show ?case by simp
next
  case (Cons a as)
  then show ?case
    by (auto simp: Let_def split: if_splits sum.splits)
qed

lemma Gorm_CreateActions_error:
  "fst (Gorm_CreateActions rid actions db) = Inl err \<Longrightarrow> \<exists>msg. err = ErrOther msg"
  by (auto simp: Gorm_CreateActions_def split: if_splits sum.splits dest: insertActions_error)

lemma Gorm_returnsNo: "returnsNo ErrInvalidResourcePath GormStorage"
proof -
  have "fst (Gorm_CreateActions rid actions db) \<noteq> Inl ErrInvalidResourcePath" for rid actions db
    using Gorm_CreateActions_error[of rid actions db ErrInvalidResourcePath] by auto
  then show ?thesis
    unfolding returnsNo_def
    by (auto simp: GormStorage_simps Gorm_CreateResource_def Gorm_GetResource_def
        Gorm_GetResourceByID_def Gorm_ListResources_def Gorm_DeleteResource_def
        Gorm_CreateRole_def Gorm_GetRole_def Gorm_ListRoles_def
        Gorm_UpdateRole_def Gorm_DeleteRole_def Let_def split: option.splits)
qed

subsection \<open>Roles in the database\<close>

lemma find_Some_mem: "find P xs = Some x \<Longrightarrow> x \<in> set xs \<and> P x"
  by (induction xs) (auto split: if_splits)

lemma find_map_replace:
  assumes "find P xs = Some x" and "P y"
    and "\<And>z. z \<in> set xs \<Longrightarrow> g z = (if Q z then y else z)" and "Q x"
  shows "find P (map g xs) = Some y"
  using assms by (induction xs) (auto split: if_splits)

lemma distinct_key_same:
  assumes "distinct (map f xs)" and "x \<in> set xs" and "y \<in> set xs" and "f x = f y"
  shows "x = y"
  using assms by (meson distinct_map inj_onD)

lemma Gorm_GetRole_Some:
  "Gorm_GetRole key db = (Inr role, db') \<Longrightarrow>
     db' = db \<and> find (\<lambda>r. role_Key r = key) (db_roles db) = Some role"
  by (auto simp: Gorm_GetRole_def split: option.splits)

lemma Gorm_UpdateRole_found:
  assumes wf: "rolesConsistent db"
    and get: "Gorm_GetRole key db = (Inr role, db0)"
  shows "fst (Gorm_UpdateRole (role\<lparr>role_Permissions := ps\<rparr>) db) = Inr ()"
    and "Gorm_GetRole key (snd (Gorm_UpdateRole (role\<lparr>role_Permissions := ps\<rparr>) db))
         = (Inr (role\<lparr>role_Permissions := ps\<rparr>),
            snd (Gorm_UpdateRole (role\<lparr>role_Permissions := ps\<rparr>) db))"
proof -
  let ?role' = "role\<lparr>role_Permissions := ps\<rparr>"
  from get have f: "find (\<lambda>r. role_Key r = key) (db_roles db) = Some role"
    by (simp add: Gorm_GetRole_Some)
  then have mem: "role \<in> set (db_roles db)" and key: "role_Key role = key"
    by (auto dest: find_Some_mem)
  from wf mem have nz: "role_ID role \<noteq> 0"
    by (auto simp: rolesConsistent_def list_all_iff)
  have nocoll: "\<not> list_ex (\<lambda>r. role_Key r = role_Key ?role' \<and> role_ID r \<noteq> role_ID ?role') (db_roles db)"
  proof
    assume "list_ex (\<lambda>r. role_Key r = role_Key ?role' \<and> role_ID r \<noteq> role_ID ?role') (db_roles db)"
    then obtain r where r: "r \<in> set (db_roles db)" "role_Key r = role_Key role" "role_ID r \<noteq> role_ID role"
      by (auto simp: list_ex_iff)
    with wf mem have "r = role"
      by (auto simp: rolesConsistent_def intro: distinct_key_same[of role_Key "db_roles db"])
    with r show False by simp
  qed
  have ex: "list_ex (\<lambda>r. role_ID r = role_ID ?role') (db_roles db)"
    using mem by (auto simp: list_ex_iff)
  have upd: "Gorm_UpdateRole ?role' db =
      (Inr (), db\<lparr>db_roles := map (\<lambda>r. if role_ID r = role_ID ?role' then ?role' else r) (db_roles db)\<rparr>)"
    using nz nocoll ex by (simp add: Gorm_UpdateRole_def)
  show "fst (Gorm_UpdateRole ?role' db) = Inr ()" by (simp add: upd)
  have "find (\<lambda>r. role_Key r = key)
          (map (\<lambda>r. if role_ID r = role_ID ?role' then ?role' else r) (db_roles db)) = Some ?role'"
    by (rule find_map_replace[OF f, where Q = "\<lambda>r. role_ID r = role_ID role"]) (simp_all add: key)
  then show "Gorm_GetRole key (snd (Gorm_UpdateRole ?role' db))
         = (Inr ?role', snd (Gorm_UpdateRole ?role' db))"
    by (simp add: upd Gorm_GetRole_def)
qed

lemma rolesConsistent_empty: "rolesConsistent emptyDB"
  by (simp add: rolesConsistent_def emptyDB_def)

lemma viewerDB_consistent: "rolesConsistent viewerDB"
  by (simp add: rolesConsistent_def viewerDB_def viewerRole_def)

lemma viewer_lookups:
  "GetRole GormStorage ''ghost'' viewerDB = (Inl ErrRoleNotFound, viewerDB)"
  "GetRole GormStorage ''viewer'' viewerDB = (Inr viewerRole, viewerDB)"
  "GetRole (lockedOn ''editor'') ''ghost'' viewerDB = (Inl ErrRoleNotFound, viewerDB)"
  "GetRole (lockedOn ''editor'') ''editor'' viewerDB = (Inl (ErrOther ''database is locked''), viewerDB)"
  by (simp_all add: GormStorage_simps lockedOn_simps Gorm_GetRole_def viewerDB_def viewerRole_def)

subsection \<open>Resources in the database\<close>

lemma Gorm_GetResource_found:
  "hasRow db key parentID \<Longrightarrow> \<exists>r. Gorm_GetResource key parentID db = (Inr r, db)"
  by (auto simp: Gorm_GetResource_def hasRow_def list_ex_iff find_None_iff split: option.splits)

lemma Gorm_GetResource_missing:
  "\<not> hasRow db key parentID \<Longrightarrow> Gorm_GetResource key parentID db = (Inl ErrResourceNotFound, db)"
  by (auto simp: Gorm_GetResource_def hasRow_def list_ex_iff find_None_iff split: option.splits)

lemma Gorm_GetResource_state: "snd (Gorm_GetResource key parentID db) = db"
  by (simp add: Gorm_GetResource_def split: option.splits)

lemma Gorm_GetResourceByID_state: "snd (Gorm_GetResourceByID ident db) = db"
  by (simp add: Gorm_GetResourceByID_def split: option.splits)

lemma Gorm_CreateResource_rows:
  "Gorm_CreateResource resource db = (r, db') \<Longrightarrow>
     set (db_resources db) \<subseteq> set (db_resources db')"
  by (auto simp: Gorm_CreateResource_def Let_def split: if_splits)

lemma Gorm_CreateResource_root:
  "res_ParentID resource = None \<Longrightarrow>
     \<exists>r db'. Gorm_CreateResource resource db = (Inr r, db')
        \<and> hasRow db' (res_Key resource) None"
  by (simp add: Gorm_CreateResource_def Let_def hasRow_def)

lemma Gorm_CreateActions_rows:
  "Gorm_CreateActions resourceID actions db = (r, db') \<Longrightarrow> db_resources db' = db_resources db"
  by (auto simp: Gorm_CreateActions_def split: if_splits sum.splits)

lemma hasRow_mono:
  "set (db_resources db) \<subseteq> set (db_resources db') \<Longrightarrow> hasRow db key parentID \<Longrightarrow>
     hasRow db' key parentID"
  by (auto simp: hasRow_def list_ex_iff)

lemma createSubResources_Gorm_rows:
  "createSubResources GormStorage parentID subs db = (r, db') \<Longrightarrow>
     set (db_resources db) \<subseteq> set (db_resources db')"
proof (induction subs arbitrary: db)
  case Nil
  then show ?case by simp
next
  case (Cons subConfig rest)
  let ?new = "Resource 0 (res_Key subConfig) (res_Name subConfig) (res_Description subConfig)
                (Some parentID) [] []"
  obtain r1 db1 where g1: "Gorm_CreateResource ?new db = (r1, db1)" by force
  then have s1: "set (db_resources db) \<subseteq> set (db_resources db1)"
    by (rule Gorm_CreateResource_rows)
  show ?case
  proof (cases r1)
    case (Inl err)
    with Cons.prems g1 s1 show ?thesis by (simp add: GormStorage_simps)
  next
    case r1: (Inr subResource)
    show ?thesis
    proof (cases "length (res_Actions subConfig) > 0")
      case False
      with Cons.prems g1 r1 have "createSubResources GormStorage parentID rest db1 = (r, db')"
        by (simp add: GormStorage_simps)
      from Cons.IH[OF this] s1 show ?thesis by blast
    next
      case True
      obtain r2 db2 where
        g2: "Gorm_CreateActions (res_ID subResource) (res_Actions subConfig) db1 = (r2, db2)"
        by force
      then have s2: "db_resources db2 = db_resources db1" by (rule Gorm_CreateActions_rows)
      show ?thesis
      proof (cases r2)
        case (Inl err)
        with Cons.prems g1 r1 True g2 s1 s2 show ?thesis by (simp add: GormStorage_simps)
      next
        case (Inr u)
        with Cons.prems g1 r1 True g2
        have "createSubResources GormStorage parentID rest db2 = (r, db')"
          by (simp add: GormStorage_simps)
        from Cons.IH[OF this] s1 s2 show ?thesis by auto
      qed
    qed
  qed
qed

lemma Manager_CreateResource_Gorm_exists:
  assumes "hasRow db (cfg_Key config) None"
  shows "Manager_CreateResource GormStorage config db = (Inl ErrResourceExists, db)"
proof -
  from Gorm_GetResource_found[OF assms] obtain r where
    "Gorm_GetResource (cfg_Key config) None db = (Inr r, db)" by blast
  then show ?thesis by (simp add: Manager_CreateResource_def GormStorage_simps)
qed

lemma Manager_CreateResource_Gorm_success:
  assumes ok: "Manager_CreateResource GormStorage config db = (Inr resource, db')"
  shows "hasRow db' (cfg_Key config) None"
proof -
  let ?new = "Resource 0 (cfg_Key config) (cfg_Name config) (cfg_Description config) None [] []"
  obtain r0 db0 where g0: "Gorm_GetResource (cfg_Key config) None db = (r0, db0)" by force
  from ok g0 obtain err0 where r0: "r0 = Inl err0"
    by (cases r0) (auto simp: Manager_CreateResource_def GormStorage_simps)
  from Gorm_CreateResource_root[of ?new db0] obtain created db1 where
    g1: "Gorm_CreateResource ?new db0 = (Inr created, db1)" and h1: "hasRow db1 (cfg_Key config) None"
    by auto
  obtain r2 db2 where g2:
    "(if length (cfg_Actions config) > 0
      then CreateActions GormStorage (res_ID created) (cfg_Actions config) db1
      else (Inr (), db1)) = (r2, db2)"
    by force
  then have s2: "db_resources db2 = db_resources db1"
    by (auto simp: GormStorage_simps split: if_splits dest: Gorm_CreateActions_rows)
  from ok g0 r0 g1 g2 obtain u2 where r2: "r2 = Inr u2"
    by (cases r2) (auto simp: Manager_CreateResource_def GormStorage_simps)
  obtain r3 db3 where
    g3: "createSubResources GormStorage (res_ID created) (cfg_SubResources config) db2 = (r3, db3)"
    by force
  then have s3: "set (db_resources db2) \<subseteq> set (db_resources db3)"
    by (rule createSubResources_Gorm_rows)
  from ok g0 r0 g1 g2 r2 g3 obtain u3 where r3: "r3 = Inr u3"
    by (cases r3) (auto simp: Manager_CreateResource_def GormStorage_simps)
  from ok g0 r0 g1 g2 r2 g3 r3 have "Gorm_GetResourceByID (res_ID created) db3 = (Inr resource, db')"
    by (simp add: Manager_CreateResource_def GormStorage_simps)
  then have "db' = db3" using Gorm_GetResourceByID_state[of "res_ID created" db3] by simp
  with h1 s2 s3 show ?thesis by (auto intro: hasRow_mono)
qed

lemma walkKeys_Gorm_state: "snd (walkKeys GormStorage key keys parentID db) = db"
proof (induction keys arbitrary: key parentID)
  case Nil
  show ?case
    using Gorm_GetResource_state[of key parentID db]
    by (cases "Gorm_GetResource key parentID db")
       (auto simp: GormStorage_simps split: sum.splits)
next
  case (Cons k ks)
  show ?case
    using Gorm_GetResource_state[of key parentID db] Cons
    by (cases "Gorm_GetResource key parentID db")
       (auto simp: GormStorage_simps split: sum.splits)
qed

lemma getResourceByPath_Gorm_state: "snd (getResourceByPath GormStorage path db) = db"
  by (simp add: getResourceByPath_def walkKeys_Gorm_state split: list.splits)











text \<open>
  A slice that \<open>CreateActions\<close> has inserted carries the identifiers of its rows, so the
  backend rejects it when it is handed over a second time, whatever the resource.
\<close>

lemma insertActions_written:
  "insertActions as rows counter = Inr (written, rows', counter') \<Longrightarrow>
     set rows \<subseteq> set rows' \<and> set written \<subseteq> set rows' \<and> (as \<noteq> [] \<longrightarrow> written \<noteq> [])
     \<and> (\<forall>w \<in> set written. act_ID w \<noteq> 0)"
proof (induction as arbitrary: rows counter written)
  case Nil
  then show ?case by simp
next
  case (Cons a as)
  let ?ident = "if act_ID a = 0 then Suc (foldr max (map act_ID rows) counter) else act_ID a"
  let ?row = "a\<lparr>act_ID := ?ident\<rparr>"
  from Cons.prems obtain rest where
    ih: "insertActions as (insort_key act_ID ?row rows) (max counter ?ident)
           = Inr (rest, rows', counter')"
    and w: "written = ?row # rest"
    by (auto simp: Let_def split: if_splits sum.splits)
  from Cons.IH[OF ih] have "set (insort_key act_ID ?row rows) \<subseteq> set rows'"
    and "set rest \<subseteq> set rows'" and "\<forall>w \<in> set rest. act_ID w \<noteq> 0" by simp_all
  with w show ?case by (auto simp: set_insort_key)
qed

lemma Gorm_CreateActions_reused_slice:
  assumes "Gorm_CreateActions rid actions db = (Inr (), db')"
  shows "Gorm_CreateActions rid2 (Gorm_CreateActions_slice rid actions db) db'
           = (Inl (ErrOther ''UNIQUE constraint failed: actions.id''), db')"
proof -
  let ?bound = "map (\<lambda>a. a\<lparr>act_ResourceID := rid\<rparr>) actions"
  from assms have ne: "actions \<noteq> []"
    by (auto simp: Gorm_CreateActions_def split: if_splits)
  with assms obtain written rows counter where
    ins: "insertActions ?bound (db_actions db) (db_action_seq db) = Inr (written, rows, counter)"
    and db': "db' = db\<lparr>db_actions := rows, db_action_seq := counter\<rparr>"
    by (auto simp: Gorm_CreateActions_def split: sum.splits)
  from insertActions_written[OF ins] ne have sub: "set written \<subseteq> set rows"
    and "written \<noteq> []" and nz: "\<forall>w \<in> set written. act_ID w \<noteq> 0" by simp_all
  then obtain w ws where w: "written = w # ws" by (cases written) auto
  with sub nz have "w \<in> set rows" and "act_ID w \<noteq> 0" by auto
  then have "list_ex (\<lambda>r. act_ID r = act_ID w) rows" by (auto simp: list_ex_iff)
  with \<open>act_ID w \<noteq> 0\<close> ins w db' show ?thesis
    by (simp add: Gorm_CreateActions_def Gorm_CreateActions_slice_def Let_def)
qed



lemma Gorm_GetResource_cases:
  obtains (found) r where "Gorm_GetResource key parentID db = (Inr r, db)" "hasRow db key parentID"
  | (missing) "Gorm_GetResource key parentID db = (Inl ErrResourceNotFound, db)" "\<not> hasRow db key parentID"
  using Gorm_GetResource_found[of db key parentID] Gorm_GetResource_missing[of db key parentID]
  by blast






lemma Manager_CreateResource_Gorm_root:
  "hasRow (snd (Manager_CreateResource GormStorage config db)) (cfg_Key config) None"
proof (cases rule: Gorm_GetResource_cases[of "cfg_Key config" None db])
  case (found r)
  then show ?thesis by (simp add: Manager_CreateResource_def GormStorage_simps)
next
  case missing
  let ?new = "Resource 0 (cfg_Key config) (cfg_Name config) (cfg_Description config) None [] []"
  from Gorm_CreateResource_root[of ?new db] obtain created db1 where
    g1: "Gorm_CreateResource ?new db = (Inr created, db1)" and h1: "hasRow db1 (cfg_Key config) None"
    by auto
  obtain r2 db2 where g2:
    "(if length (cfg_Actions config) > 0
      then CreateActions GormStorage (res_ID created) (cfg_Actions config) db1
      else (Inr (), db1)) = (r2, db2)"
    by force
  then have "db_resources db2 = db_resources db1"
    by (auto simp: GormStorage_simps split: if_splits dest: Gorm_CreateActions_rows)
  with h1 have h2: "hasRow db2 (cfg_Key config) None" by (simp add: hasRow_def)
  show ?thesis
  proof (cases r2)
    case (Inl err)
    with missing g1 g2 h2 show ?thesis
      by (simp add: Manager_CreateResource_def GormStorage_simps)
  next
    case r2: (Inr u)
    obtain r3 db3 where
      g3: "createSubResources GormStorage (res_ID created) (cfg_SubResources config) db2 = (r3, db3)"
      by force
    from createSubResources_Gorm_rows[OF g3] h2 have h3: "hasRow db3 (cfg_Key config) None"
      by (rule hasRow_mono)
    from missing g1 g2 r2 g3 h3 Gorm_GetResourceByID_state[of "res_ID created" db3]
    show ?thesis
      by (cases r3) (simp_all add: Manager_CreateResource_def GormStorage_simps)
  qed
qed

lemma create_article:
  "Manager_CreateResource GormStorage articleConfig emptyDB = (Inr articleRow, articleDB)"
  by (simp add: Manager_CreateResource_def GormStorage_simps Gorm_defs example_defs)



text \<open>
  The slice of \<open>edit\<close> after \<open>comment\<close> has been created with it carries the identifier of
  the row; offered again for \<open>comment\<close>, it fails on the primary key, before the key of the
  action is looked at.  So does an action \<open>delete\<close> that carries the identifier of \<open>edit\<close>.
\<close>

lemma reused_slice_rejected:
  "Gorm_CreateActions_slice 2 (res_Actions commentEdit)
     (commentDB\<lparr>db_actions := [], db_action_seq := 0\<rparr>) = [editAction]"
  "CreateResources GormStorage ''article''
     [Resource 0 ''comment'' ''Comment'' ''comment on an article'' None [editAction] []] commentDB
   = (Inl (ErrOther ''UNIQUE constraint failed: actions.id''), commentDB)"
  "CreateResources GormStorage ''article''
     [Resource 0 ''comment'' ''Comment'' ''comment on an article'' None
        [(DefineAction ''delete'' ''Delete'' ''delete a comment'')\<lparr>act_ID := 1\<rparr>] []] commentDB
   = (Inl (ErrOther ''UNIQUE constraint failed: actions.id''), commentDB)"
  by (simp_all add: CreateResources_def getResourceByPath_def parseResourcePath_def
        Gorm_CreateActions_slice_def GormStorage_simps Gorm_defs example_defs)

subsection \<open>An invariant of the table of roles\<close>

text \<open>
  The empty database is sound, the operations of the manager that write to the database
  keep it sound, and a sound database has consistent roles.
\<close>

lemma replace_keeps_IDs:
  "map role_ID (map (\<lambda>r. if role_ID r = role_ID role then role else r) xs) = map role_ID xs"
  by (induction xs) auto

lemma replace_set:
  "set (map (\<lambda>r. if role_ID r = i then role else r) xs) \<subseteq> insert role (set xs)"
  by (induction xs) auto

lemma replace_keeps_keys_distinct:
  assumes "distinct (map role_ID xs)" and "distinct (map role_Key xs)"
    and "\<forall>r \<in> set xs. role_Key r = role_Key role \<longrightarrow> role_ID r = role_ID role"
  shows "distinct (map role_Key (map (\<lambda>r. if role_ID r = role_ID role then role else r) xs))"
  using assms
proof (induction xs)
  case Nil
  show ?case by simp
next
  case (Cons x xs)
  let ?g = "\<lambda>r. if role_ID r = role_ID role then role else r"
  from Cons.prems have d1: "distinct (map role_ID xs)" and d2: "distinct (map role_Key xs)"
    and nc: "\<forall>r \<in> set xs. role_Key r = role_Key role \<longrightarrow> role_ID r = role_ID role"
    and x1: "role_ID x \<notin> role_ID ` set xs" and x2: "role_Key x \<notin> role_Key ` set xs"
    and ncx: "role_Key x = role_Key role \<longrightarrow> role_ID x = role_ID role"
    by simp_all
  from Cons.IH[OF d1 d2 nc] have ih: "distinct (map role_Key (map ?g xs))" .
  show ?case
  proof (cases "role_ID x = role_ID role")
    case True
    have "\<forall>r \<in> set xs. role_ID r \<noteq> role_ID role"
    proof
      fix r assume "r \<in> set xs"
      then have "role_ID r \<in> role_ID ` set xs" by (rule imageI)
      with x1 True show "role_ID r \<noteq> role_ID role" by metis
    qed
    then have same: "map ?g xs = xs" by (simp add: map_idI)
    have "role_Key role \<notin> role_Key ` set xs"
    proof
      assume "role_Key role \<in> role_Key ` set xs"
      then obtain r where r: "r \<in> set xs" "role_Key r = role_Key role" by auto
      with nc have "role_ID r = role_ID role" by blast
      with \<open>\<forall>r \<in> set xs. role_ID r \<noteq> role_ID role\<close> r show False by blast
    qed
    then have "role_Key role \<notin> set (map role_Key xs)" by simp
    with d2 have "distinct (role_Key role # map role_Key xs)" by simp
    moreover have "map role_Key (map ?g (x # xs)) = role_Key role # map role_Key xs"
      using True same by simp
    ultimately show ?thesis by metis
  next
    case False
    with ncx have a: "role_Key x \<noteq> role_Key role" by blast
    have "role_Key x \<notin> set (map role_Key (map ?g xs))"
    proof
      assume "role_Key x \<in> set (map role_Key (map ?g xs))"
      then have "role_Key x \<in> role_Key ` set (map ?g xs)" by (simp only: set_map)
      then obtain r where r: "role_Key x = role_Key r" "r \<in> set (map ?g xs)"
        by (rule imageE)
      from r(2) replace_set[of "role_ID role" role xs] have "r = role \<or> r \<in> set xs"
        by blast
      with r(1) a x2 show False by (metis imageI)
    qed
    with ih have "distinct (role_Key x # map role_Key (map ?g xs))" by simp
    moreover have "map role_Key (map ?g (x # xs)) = role_Key x # map role_Key (map ?g xs)"
      using False by simp
    ultimately show ?thesis by metis
  qed
qed

lemma rolesSound_consistent: "rolesSound db \<Longrightarrow> rolesConsistent db"
  by (auto simp: rolesSound_def rolesConsistent_def list_all_iff)

lemma rolesSound_empty: "rolesSound emptyDB"
  by (simp add: rolesSound_def emptyDB_def)

lemma rolesSound_CreateRole:
  assumes "rolesSound db" shows "rolesSound (snd (Gorm_CreateRole role db))"
proof (cases "list_ex (\<lambda>r. role_Key r = role_Key role) (db_roles db)")
  case True
  with assms show ?thesis by (simp add: Gorm_CreateRole_def)
next
  case False
  then have k: "role_Key role \<notin> role_Key ` set (db_roles db)"
    by (auto simp: list_ex_iff)
  from assms have i: "Suc (db_role_seq db) \<notin> role_ID ` set (db_roles db)"
    by (auto simp: rolesSound_def list_all_iff)
  from assms have b: "\<forall>r \<in> set (db_roles db). 0 < role_ID r \<and> role_ID r \<le> Suc (db_role_seq db)"
    by (auto simp: rolesSound_def list_all_iff)
  from assms k i b False show ?thesis
    by (simp add: Gorm_CreateRole_def rolesSound_def Let_def list_all_iff)
qed

lemma rolesSound_UpdateRole:
  assumes "rolesSound db" shows "rolesSound (snd (Gorm_UpdateRole role db))"
proof (cases "role_ID role = 0")
  case True
  have "snd (Gorm_UpdateRole role db) = snd (Gorm_CreateRole role db)"
    using True by (simp add: Gorm_UpdateRole_def split: prod.splits sum.splits)
  with rolesSound_CreateRole[OF assms, of role] show ?thesis by simp
next
  case nz: False
  show ?thesis
  proof (cases "list_ex (\<lambda>r. role_Key r = role_Key role \<and> role_ID r \<noteq> role_ID role) (db_roles db)")
    case True
    with nz assms show ?thesis by (simp add: Gorm_UpdateRole_def)
  next
    case nocoll: False
    then have nc: "\<forall>r \<in> set (db_roles db). role_Key r = role_Key role \<longrightarrow> role_ID r = role_ID role"
      by (auto simp: list_ex_iff)
    show ?thesis
    proof (cases "list_ex (\<lambda>r. role_ID r = role_ID role) (db_roles db)")
      case True
      then obtain r0 where r0: "r0 \<in> set (db_roles db)" "role_ID r0 = role_ID role"
        by (auto simp: list_ex_iff)
      let ?m = "map (\<lambda>r. if role_ID r = role_ID role then role else r) (db_roles db)"
      have k: "distinct (map role_Key ?m)"
        using assms nc by (intro replace_keeps_keys_distinct) (simp_all add: rolesSound_def)
      have i: "distinct (map role_ID ?m)"
        using assms by (simp only: replace_keeps_IDs) (simp add: rolesSound_def)
      have "\<forall>r \<in> set ?m. 0 < role_ID r \<and> role_ID r \<le> db_role_seq db"
        using assms r0 by (auto simp: rolesSound_def list_all_iff)
      then have b: "list_all (\<lambda>r. 0 < role_ID r \<and> role_ID r \<le> db_role_seq db) ?m"
        by (simp only: list_all_iff)
      have "snd (Gorm_UpdateRole role db) = db\<lparr>db_roles := ?m\<rparr>"
        using nz nocoll True by (simp add: Gorm_UpdateRole_def)
      with k i b show ?thesis by (simp add: rolesSound_def)
    next
      case False
      then have fresh: "role_ID role \<notin> role_ID ` set (db_roles db)"
        by (auto simp: list_ex_iff)
      have kfresh: "role_Key role \<notin> role_Key ` set (db_roles db)"
      proof
        assume "role_Key role \<in> role_Key ` set (db_roles db)"
        then obtain r where "r \<in> set (db_roles db)" "role_Key r = role_Key role" by auto
        with nc have "role_ID r = role_ID role" by blast
        with \<open>r \<in> set (db_roles db)\<close> have "role_ID role \<in> role_ID ` set (db_roles db)"
          by (metis imageI)
        with fresh show False by simp
      qed
      have "snd (Gorm_UpdateRole role db)
            = db\<lparr>db_roles := db_roles db @ [role],
                 db_role_seq := max (db_role_seq db) (role_ID role)\<rparr>"
        using nz nocoll False by (simp add: Gorm_UpdateRole_def)
      moreover from assms
      have "\<forall>r \<in> set (db_roles db). 0 < role_ID r \<and> role_ID r \<le> max (db_role_seq db) (role_ID role)"
        by (auto simp: rolesSound_def list_all_iff)
      ultimately show ?thesis using assms nz fresh kfresh
        by (simp add: rolesSound_def list_all_iff)
    qed
  qed
qed

lemma rolesSound_DeleteRole:
  assumes "rolesSound db" shows "rolesSound (snd (Gorm_DeleteRole ident db))"
proof -
  from assms have "distinct (map role_Key (filter (\<lambda>r. role_ID r \<noteq> ident) (db_roles db)))"
    and "distinct (map role_ID (filter (\<lambda>r. role_ID r \<noteq> ident) (db_roles db)))"
    by (simp_all add: rolesSound_def distinct_map_filter)
  moreover from assms
  have "\<forall>r \<in> set (filter (\<lambda>r. role_ID r \<noteq> ident) (db_roles db)).
          0 < role_ID r \<and> role_ID r \<le> db_role_seq db"
    by (simp add: rolesSound_def list_all_iff)
  ultimately show ?thesis
    by (simp add: Gorm_DeleteRole_def rolesSound_def list_all_iff)
qed

lemma Gorm_role_reads:
  "snd (Gorm_GetRole key db) = db" "snd (Gorm_ListRoles db) = db"
  by (simp_all add: Gorm_GetRole_def Gorm_ListRoles_def split: option.splits)

lemma rolesSound_Manager_CreateRole:
  assumes "rolesSound db"
  shows "rolesSound (snd (Manager_CreateRole GormStorage key config db))"
proof -
  let ?role = "\<lparr>role_ID = 0, role_Key = key, role_Name = rcfg_Name config,
                   role_Description = rcfg_Description config,
                   role_Permissions = rcfg_Permissions config\<rparr>"
  obtain r0 db0 where g0: "Gorm_GetRole key db = (r0, db0)" by force
  with Gorm_role_reads(1)[of key db] have db0: "db0 = db" by simp
  obtain r1 db1 where g1: "Gorm_CreateRole ?role db = (r1, db1)" by force
  with rolesSound_CreateRole[OF assms, of ?role] have "rolesSound db1" by simp
  with g0 db0 g1 assms show ?thesis
    by (cases r0; cases r1) (simp_all add: Manager_CreateRole_def GormStorage_simps)
qed

lemma rolesSound_AssignPermissions:
  assumes "rolesSound db"
  shows "rolesSound (snd (AssignPermissions GormStorage key permissions db))"
proof -
  obtain r0 db0 where g0: "Gorm_GetRole key db = (r0, db0)" by force
  with Gorm_role_reads(1)[of key db] have db0: "db0 = db" by simp
  from g0 db0 assms rolesSound_UpdateRole[OF assms] show ?thesis
    by (cases r0) (simp_all add: AssignPermissions_def GormStorage_simps Let_def)
qed

lemma rolesSound_RemovePermissions:
  assumes "rolesSound db"
  shows "rolesSound (snd (RemovePermissions GormStorage key permissions db))"
proof -
  obtain r0 db0 where g0: "Gorm_GetRole key db = (r0, db0)" by force
  with Gorm_role_reads(1)[of key db] have db0: "db0 = db" by simp
  from g0 db0 assms rolesSound_UpdateRole[OF assms] show ?thesis
    by (cases r0) (simp_all add: RemovePermissions_def GormStorage_simps Let_def)
qed

lemma rolesSound_Manager_DeleteRole:
  assumes "rolesSound db"
  shows "rolesSound (snd (Manager_DeleteRole GormStorage key db))"
proof -
  obtain r0 db0 where g0: "Gorm_GetRole key db = (r0, db0)" by force
  with Gorm_role_reads(1)[of key db] have db0: "db0 = db" by simp
  from g0 db0 assms rolesSound_DeleteRole[OF assms] show ?thesis
    by (cases r0) (simp_all add: Manager_DeleteRole_def GormStorage_simps)
qed

lemma Gorm_resource_calls_keep_roles:
  "db_roles (snd (Gorm_CreateResource resource db)) = db_roles db
   \<and> db_role_seq (snd (Gorm_CreateResource resource db)) = db_role_seq db"
  "db_roles (snd (Gorm_CreateActions rid actions db)) = db_roles db
   \<and> db_role_seq (snd (Gorm_CreateActions rid actions db)) = db_role_seq db"
  "db_roles (snd (Gorm_DeleteResource ident db)) = db_roles db
   \<and> db_role_seq (snd (Gorm_DeleteResource ident db)) = db_role_seq db"
  by (simp_all add: Gorm_CreateResource_def Gorm_CreateActions_def Gorm_DeleteResource_def Let_def
        split: sum.splits)

lemma rolesSound_resource_calls:
  assumes "rolesSound db"
  shows "rolesSound (snd (Gorm_CreateResource resource db))"
    and "rolesSound (snd (Gorm_CreateActions rid actions db))"
    and "rolesSound (snd (Gorm_DeleteResource ident db))"
  using assms Gorm_resource_calls_keep_roles(1)[of resource db]
    Gorm_resource_calls_keep_roles(2)[of rid actions db]
    Gorm_resource_calls_keep_roles(3)[of ident db]
  by (simp_all add: rolesSound_def)

lemma rolesSound_createSubResources:
  assumes "rolesSound db"
  shows "rolesSound (snd (createSubResources GormStorage parentID subs db))"
  using assms
proof (induction subs arbitrary: db)
  case Nil
  then show ?case by simp
next
  case (Cons subConfig rest)
  let ?new = "Resource 0 (res_Key subConfig) (res_Name subConfig) (res_Description subConfig)
                (Some parentID) [] []"
  obtain r1 db1 where g1: "Gorm_CreateResource ?new db = (r1, db1)" by force
  with rolesSound_resource_calls(1)[OF Cons.prems, of ?new] have s1: "rolesSound db1" by simp
  show ?case
  proof (cases r1)
    case (Inl err)
    with g1 s1 show ?thesis by (simp add: GormStorage_simps)
  next
    case (Inr sub)
    obtain r2 db2 where
      g2: "Gorm_CreateActions (res_ID sub) (res_Actions subConfig) db1 = (r2, db2)" by force
    with rolesSound_resource_calls(2)[OF s1, of "res_ID sub" "res_Actions subConfig"]
    have s2: "rolesSound db2" by simp
    from g1 Inr g2 s1 s2 Cons.IH[OF s1] Cons.IH[OF s2] show ?thesis
      by (cases r2) (simp_all add: GormStorage_simps)
  qed
qed

lemma rolesSound_createResourcesLoop:
  assumes "rolesSound db"
  shows "rolesSound (snd (createResourcesLoop GormStorage parent subs db))"
  using assms
proof (induction subs arbitrary: db)
  case Nil
  then show ?case by simp
next
  case (Cons subConfig rest)
  let ?new = "Resource 0 (res_Key subConfig) (res_Name subConfig) (res_Description subConfig)
                (Some (res_ID parent)) [] []"
  obtain r0 db0 where g0: "Gorm_GetResource (res_Key subConfig) (Some (res_ID parent)) db = (r0, db0)"
    by force
  with Gorm_GetResource_state[of "res_Key subConfig" "Some (res_ID parent)" db]
  have db0: "db0 = db" by simp
  show ?case
  proof (cases r0)
    case (Inr existing)
    obtain r1 db1 where
      g1: "Gorm_CreateActions (res_ID existing) (res_Actions subConfig) db = (r1, db1)" by force
    with rolesSound_resource_calls(2)[OF Cons.prems, of "res_ID existing" "res_Actions subConfig"]
    have s1: "rolesSound db1" by simp
    from g0 db0 Inr g1 s1 Cons.prems Cons.IH[OF s1] Cons.IH[OF Cons.prems] show ?thesis
      by (cases r1) (simp_all add: GormStorage_simps)
  next
    case r0: (Inl err0)
    obtain r1 db1 where g1: "Gorm_CreateResource ?new db = (r1, db1)" by force
    with rolesSound_resource_calls(1)[OF Cons.prems, of ?new] have s1: "rolesSound db1" by simp
    show ?thesis
    proof (cases r1)
      case (Inl err)
      with g0 db0 r0 g1 s1 show ?thesis by (simp add: GormStorage_simps)
    next
      case (Inr sub)
      obtain r2 db2 where
        g2: "Gorm_CreateActions (res_ID sub) (res_Actions subConfig) db1 = (r2, db2)" by force
      with rolesSound_resource_calls(2)[OF s1, of "res_ID sub" "res_Actions subConfig"]
      have s2: "rolesSound db2" by simp
      from g0 db0 r0 g1 Inr g2 s1 s2 Cons.IH[OF s1] Cons.IH[OF s2] show ?thesis
        by (cases r2) (simp_all add: GormStorage_simps)
    qed
  qed
qed

lemma rolesSound_Manager_CreateResource:
  assumes "rolesSound db"
  shows "rolesSound (snd (Manager_CreateResource GormStorage config db))"
proof -
  let ?new = "Resource 0 (cfg_Key config) (cfg_Name config) (cfg_Description config) None [] []"
  obtain r0 db0 where g0: "Gorm_GetResource (cfg_Key config) None db = (r0, db0)" by force
  with Gorm_GetResource_state[of "cfg_Key config" None db] have db0: "db0 = db" by simp
  show ?thesis
  proof (cases r0)
    case (Inr existing)
    with g0 db0 assms show ?thesis by (simp add: Manager_CreateResource_def GormStorage_simps)
  next
    case r0: (Inl err0)
    obtain r1 db1 where g1: "Gorm_CreateResource ?new db = (r1, db1)" by force
    with rolesSound_resource_calls(1)[OF assms, of ?new] have s1: "rolesSound db1" by simp
    show ?thesis
    proof (cases r1)
      case (Inl err)
      with g0 db0 r0 g1 s1 show ?thesis by (simp add: Manager_CreateResource_def GormStorage_simps)
    next
      case r1: (Inr resource)
      obtain r2 db2 where g2:
        "(if length (cfg_Actions config) > 0
          then CreateActions GormStorage (res_ID resource) (cfg_Actions config) db1
          else (Inr (), db1)) = (r2, db2)" by force
      with rolesSound_resource_calls(2)[OF s1, of "res_ID resource" "cfg_Actions config"] s1
      have s2: "rolesSound db2" by (auto simp: GormStorage_simps split: if_splits)
      show ?thesis
      proof (cases r2)
        case (Inl err)
        with g0 db0 r0 g1 r1 g2 s2 show ?thesis
          by (simp add: Manager_CreateResource_def GormStorage_simps)
      next
        case r2: (Inr u)
        obtain r3 db3 where
          g3: "createSubResources GormStorage (res_ID resource) (cfg_SubResources config) db2
               = (r3, db3)" by force
        with rolesSound_createSubResources[OF s2, of "res_ID resource" "cfg_SubResources config"]
        have s3: "rolesSound db3" by simp
        from g0 db0 r0 g1 r1 g2 r2 g3 s3 Gorm_GetResourceByID_state[of "res_ID resource" db3]
        show ?thesis
          by (cases r3) (simp_all add: Manager_CreateResource_def GormStorage_simps)
      qed
    qed
  qed
qed

lemma rolesSound_CreateResources:
  assumes "rolesSound db"
  shows "rolesSound (snd (CreateResources GormStorage path subs db))"
proof -
  obtain r0 db0 where g0: "getResourceByPath GormStorage path db = (r0, db0)" by force
  with getResourceByPath_Gorm_state[of path db] have db0: "db0 = db" by simp
  from g0 db0 assms rolesSound_createResourcesLoop[OF assms] show ?thesis
    by (cases r0) (simp_all add: CreateResources_def)
qed

lemma rolesSound_AddActions:
  assumes "rolesSound db"
  shows "rolesSound (snd (AddActions GormStorage path actions db))"
proof -
  obtain r0 db0 where g0: "getResourceByPath GormStorage path db = (r0, db0)" by force
  with getResourceByPath_Gorm_state[of path db] have db0: "db0 = db" by simp
  from g0 db0 assms rolesSound_resource_calls(2)[OF assms] show ?thesis
    by (cases r0) (simp_all add: AddActions_def GormStorage_simps)
qed

lemma rolesSound_Manager_DeleteResource:
  assumes "rolesSound db"
  shows "rolesSound (snd (Manager_DeleteResource GormStorage path db))"
proof -
  obtain r0 db0 where g0: "getResourceByPath GormStorage path db = (r0, db0)" by force
  with getResourceByPath_Gorm_state[of path db] have db0: "db0 = db" by simp
  from g0 db0 assms rolesSound_resource_calls(3)[OF assms] show ?thesis
    by (cases r0) (simp_all add: Manager_DeleteResource_def GormStorage_simps)
qed

section \<open>The specified properties\<close>

text \<open>
  C2.  \<open>CheckRolesPermission\<close> goes through the role keys in the order given.  On no keys
  it returns false without error.  On a first key whose lookup fails with
  \<open>ErrRoleNotFound\<close> it skips the key and goes on with the others; any other lookup error
  is returned at once; a role whose permissions satisfy the requirement gives true at once; a
  role whose permissions do not is passed over.  Hence, for a storage whose role lookups
  leave its state alone, the result is decided by the first key, in the order given, whose
  lookup is decisive, and is false without error when there is none.
\<close>

theorem CheckRolesPermission_in_order:
  "CheckRolesPermission st [] req s = (Inr False, s)
   \<and> (GetRole st k s = (Inl ErrRoleNotFound, s') \<longrightarrow>
        CheckRolesPermission st (k # ks) req s = CheckRolesPermission st ks req s')
   \<and> (GetRole st k s = (Inl err, s') \<and> err \<noteq> ErrRoleNotFound \<longrightarrow>
        CheckRolesPermission st (k # ks) req s = (Inl err, s'))
   \<and> (GetRole st k s = (Inr role, s') \<and> CheckPermissions req (role_Permissions role) \<longrightarrow>
        CheckRolesPermission st (k # ks) req s = (Inr True, s'))
   \<and> (GetRole st k s = (Inr role, s') \<and> \<not> CheckPermissions req (role_Permissions role) \<longrightarrow>
        CheckRolesPermission st (k # ks) req s = CheckRolesPermission st ks req s')
   \<and> ((\<forall>key \<in> set roleKeys. snd (GetRole st key s) = s) \<longrightarrow>
        CheckRolesPermission st roleKeys req s =
          (case find (\<lambda>key. decisive req (fst (GetRole st key s))) roleKeys of
             None \<Rightarrow> (Inr False, s)
           | Some key \<Rightarrow> (verdict (fst (GetRole st key s)), s)))"
proof (intro conjI impI)
  show "CheckRolesPermission st [] req s = (Inr False, s)" by simp
next
  assume "GetRole st k s = (Inl ErrRoleNotFound, s')"
  then show "CheckRolesPermission st (k # ks) req s = CheckRolesPermission st ks req s'"
    by (simp add: CheckRolePermission_def)
next
  assume "GetRole st k s = (Inl err, s') \<and> err \<noteq> ErrRoleNotFound"
  then show "CheckRolesPermission st (k # ks) req s = (Inl err, s')"
    by (simp add: CheckRolePermission_def)
next
  assume "GetRole st k s = (Inr role, s') \<and> CheckPermissions req (role_Permissions role)"
  then show "CheckRolesPermission st (k # ks) req s = (Inr True, s')"
    by (simp add: CheckRolePermission_def)
next
  assume "GetRole st k s = (Inr role, s') \<and> \<not> CheckPermissions req (role_Permissions role)"
  then show "CheckRolesPermission st (k # ks) req s = CheckRolesPermission st ks req s'"
    by (simp add: CheckRolePermission_def)
next
  assume "\<forall>key \<in> set roleKeys. snd (GetRole st key s) = s"
  then show "CheckRolesPermission st roleKeys req s =
          (case find (\<lambda>key. decisive req (fst (GetRole st key s))) roleKeys of
             None \<Rightarrow> (Inr False, s)
           | Some key \<Rightarrow> (verdict (fst (GetRole st key s)), s))"
    by (rule CheckRolesPermission_first_decisive)
qed

text \<open>
  On a database with the single role \<open>viewer\<close>: the missing role \<open>ghost\<close> is skipped and
  \<open>viewer\<close> grants \<open>article.read\<close>; \<open>article.delete\<close> is granted by no role; a driver error
  on the lookup of \<open>editor\<close> is returned although \<open>viewer\<close> comes later in the list.
\<close>

theorem CheckRolesPermission_in_order_witness:
  "CheckRolesPermission GormStorage [''ghost'', ''viewer''] ''article.read'' viewerDB
     = (Inr True, viewerDB)
   \<and> CheckRolesPermission GormStorage [''ghost'', ''viewer''] ''article.delete'' viewerDB
     = (Inr False, viewerDB)
   \<and> CheckRolesPermission (lockedOn ''editor'') [''ghost'', ''editor'', ''viewer'']
       ''article.read'' viewerDB
     = (Inl (ErrOther ''database is locked''), viewerDB)
   \<and> CheckRolesPermission GormStorage [''viewer'', ''ghost''] ''article'' viewerDB
     = (Inr True, viewerDB)"
proof -
  have yes: "CheckPermissions ''article.read'' (role_Permissions viewerRole)"
    by (simp add: viewerRole_def CheckPermission_def)
  have no: "\<not> CheckPermissions ''article.delete'' (role_Permissions viewerRole)"
    by (simp add: viewerRole_def CheckPermission_def HasPrefix_def)
  have a: "CheckRolesPermission GormStorage [''ghost'', ''viewer''] ''article.read'' viewerDB
     = (Inr True, viewerDB)"
    using CheckRolesPermission_in_order[of GormStorage "''article.read''" viewerDB "''ghost''"
            viewerDB "[''viewer'']"]
          CheckRolesPermission_in_order[of GormStorage "''article.read''" viewerDB "''viewer''"
            viewerDB "[]" _ viewerRole]
          viewer_lookups yes
    by simp
  have b: "CheckRolesPermission GormStorage [''ghost'', ''viewer''] ''article.delete'' viewerDB
     = (Inr False, viewerDB)"
    using CheckRolesPermission_in_order[of GormStorage "''article.delete''" viewerDB "''ghost''"
            viewerDB "[''viewer'']"]
          CheckRolesPermission_in_order[of GormStorage "''article.delete''" viewerDB "''viewer''"
            viewerDB "[]" _ viewerRole]
          viewer_lookups no
    by simp
  have c: "CheckRolesPermission (lockedOn ''editor'') [''ghost'', ''editor'', ''viewer'']
       ''article.read'' viewerDB
     = (Inl (ErrOther ''database is locked''), viewerDB)"
    using CheckRolesPermission_in_order[of "lockedOn ''editor''" "''article.read''" viewerDB
            "''ghost''" viewerDB "[''editor'', ''viewer'']"]
          CheckRolesPermission_in_order[of "lockedOn ''editor''" "''article.read''" viewerDB
            "''editor''" viewerDB "[''viewer'']" "ErrOther ''database is locked''"]
          viewer_lookups
    by simp
  have pure: "\<forall>key \<in> set [''viewer'', ''ghost'']. snd (GetRole GormStorage key viewerDB) = viewerDB"
    by (simp add: viewer_lookups)
  have d: "CheckRolesPermission GormStorage [''viewer'', ''ghost''] ''article'' viewerDB
     = (Inr True, viewerDB)"
    using CheckRolesPermission_in_order[of GormStorage "''article''" viewerDB _ _ _ _ _
            "[''viewer'', ''ghost'']"] pure
    by (simp add: viewer_lookups decisive_def verdict_def viewerRole_def CheckPermission_def
          HasPrefix_def)
  from a b c d show ?thesis by simp
qed




text \<open>
  C4.  Resolving the empty path does not return \<open>ErrInvalidResourcePath\<close>: the empty
  string splits into one empty key, so, for every storage, the empty key is looked up at
  the root (one storage call, recorded in the log) and the outcome of that lookup is the
  result.  On the GORM backend this is \<open>ErrResourceNotFound\<close> on an empty database, and the
  resource itself once a root resource with the empty key has been created.
\<close>

theorem getResourceByPath_empty_path:
  "parseResourcePath '''' = ['''']
   \<and> fst (getResourceByPath st '''' s) = fst (GetResource st '''' None s)
   \<and> snd (getResourceByPath st '''' s) = snd (GetResource st '''' None s)
   \<and> traceFrom (getResourceByPath (traced st) '''') s
       = [(MGetResource, outcome (fst (GetResource st '''' None s)))]
   \<and> getResourceByPath GormStorage '''' emptyDB = (Inl ErrResourceNotFound, emptyDB)
   \<and> Manager_CreateResource GormStorage unnamedConfig emptyDB = (Inr unnamedRow, unnamedDB)
   \<and> getResourceByPath GormStorage '''' unnamedDB = (Inr unnamedRow, unnamedDB)"
proof -
  have p: "parseResourcePath '''' = ['''']" by (simp add: parseResourcePath_def)
  have a: "fst (getResourceByPath st '''' s) = fst (GetResource st '''' None s)"
    and b: "snd (getResourceByPath st '''' s) = snd (GetResource st '''' None s)"
    by (cases "GetResource st '''' None s"; simp add: getResourceByPath_def p split: sum.splits)+
  have c: "traceFrom (getResourceByPath (traced st) '''') s
       = [(MGetResource, outcome (fst (GetResource st '''' None s)))]"
    by (cases "GetResource st '''' None s")
       (simp add: traceFrom_def getResourceByPath_def p trace_simps split: sum.splits)
  have d: "getResourceByPath GormStorage '''' emptyDB = (Inl ErrResourceNotFound, emptyDB)"
    by (simp add: getResourceByPath_def p GormStorage_simps Gorm_GetResource_def emptyDB_def)
  have e: "Manager_CreateResource GormStorage unnamedConfig emptyDB = (Inr unnamedRow, unnamedDB)"
    by (simp add: Manager_CreateResource_def GormStorage_simps Gorm_defs emptyDB_def
          unnamedConfig_def unnamedRow_def unnamedDB_def)
  have f: "getResourceByPath GormStorage '''' unnamedDB = (Inr unnamedRow, unnamedDB)"
    by (simp add: getResourceByPath_def p GormStorage_simps Gorm_defs unnamedRow_def unnamedDB_def)
  from p a b c d e f show ?thesis by simp
qed

text \<open>
  C5.  The code does not do what the claim says of the lookups that check for an existing
  entry.  \<open>CreateRole\<close>, \<open>CreateResource\<close> and \<open>CreateResources\<close> look the key up and refuse
  or extend an entry that is found; but they test the lookup for success only, so a lookup
  that fails with an error other than not-found is taken for an entry that does not
  exist.  On a backend whose lookup of the key fails with a driver error: \<open>CreateRole\<close>
  succeeds and the error is lost; \<open>CreateResource\<close>, on a database that has the root
  resource \<open>article\<close>, succeeds and leaves a second root resource \<open>article\<close> in the table,
  which the check is there to prevent; \<open>CreateResources\<close> tries to create \<open>comment\<close> again
  and returns the error of the insert instead of the error of the lookup.  In each case a
  failed call of the log is neither the result nor a lookup that found nothing.
\<close>

theorem precheck_failure_not_propagated:
  "GetRole (lockedOn ''viewer'') ''viewer'' emptyDB
     = (Inl (ErrOther ''database is locked''), emptyDB)
   \<and> Manager_CreateRole (lockedOn ''viewer'') ''viewer'' viewerConfig emptyDB
     = (Inr viewerRole, viewerDB)
   \<and> traceFrom (Manager_CreateRole (traced (lockedOn ''viewer'')) ''viewer'' viewerConfig) emptyDB
     = [(MGetRole, Some (ErrOther ''database is locked'')), (MCreateRole, None)]
   \<and> \<not> audit missingRoleLookup
         (Manager_CreateRole (traced (lockedOn ''viewer'')) ''viewer'' viewerConfig (emptyDB, []))
         (Manager_CreateRole (lockedOn ''viewer'') ''viewer'' viewerConfig emptyDB)
   \<and> GetResource (lockedOn ''article'') ''article'' None articleDB
     = (Inl (ErrOther ''database is locked''), articleDB)
   \<and> fst (Manager_CreateResource (lockedOn ''article'') articleConfig articleDB)
     = Inr (Resource 2 ''article'' ''Article'' ''news article'' None [] [])
   \<and> db_resources (snd (Manager_CreateResource (lockedOn ''article'') articleConfig articleDB))
     = [articleRow, Resource 2 ''article'' ''Article'' ''news article'' None [] []]
   \<and> \<not> audit missingResourceLookup
         (Manager_CreateResource (traced (lockedOn ''article'')) articleConfig (articleDB, []))
         (Manager_CreateResource (lockedOn ''article'') articleConfig articleDB)
   \<and> GetResource (lockedOn ''comment'') ''comment'' (Some 1) commentDB
     = (Inl (ErrOther ''database is locked''), commentDB)
   \<and> fst (CreateResources (lockedOn ''comment'') ''article'' [commentDelete] commentDB)
     = Inl (ErrOther ''UNIQUE constraint failed: resources.key, resources.parent_id'')
   \<and> \<not> audit missingResourceLookup
         (CreateResources (traced (lockedOn ''comment'')) ''article'' [commentDelete] (commentDB, []))
         (CreateResources (lockedOn ''comment'') ''article'' [commentDelete] commentDB)"
proof -
  have p: "parseResourcePath ''article'' = [''article'']" by (simp add: parseResourcePath_def)
  have 1: "GetRole (lockedOn ''viewer'') ''viewer'' emptyDB
     = (Inl (ErrOther ''database is locked''), emptyDB)"
    by (simp add: lockedOn_simps)
  have 2: "Manager_CreateRole (lockedOn ''viewer'') ''viewer'' viewerConfig emptyDB
     = (Inr viewerRole, viewerDB)"
    by (simp add: Manager_CreateRole_def lockedOn_simps Gorm_defs example_defs)
  have 3: "traceFrom (Manager_CreateRole (traced (lockedOn ''viewer'')) ''viewer'' viewerConfig) emptyDB
     = [(MGetRole, Some (ErrOther ''database is locked'')), (MCreateRole, None)]"
    by (simp add: traceFrom_def Manager_CreateRole_def lockedOn_simps Gorm_defs example_defs
          trace_simps)
  have 4: "\<not> audit missingRoleLookup
         (Manager_CreateRole (traced (lockedOn ''viewer'')) ''viewer'' viewerConfig (emptyDB, []))
         (Manager_CreateRole (lockedOn ''viewer'') ''viewer'' viewerConfig emptyDB)"
    by (simp add: audit_def missingRoleLookup_def Manager_CreateRole_def lockedOn_simps Gorm_defs
          example_defs trace_simps)
  have 5: "GetResource (lockedOn ''article'') ''article'' None articleDB
     = (Inl (ErrOther ''database is locked''), articleDB)"
    by (simp add: lockedOn_simps)
  have 6: "fst (Manager_CreateResource (lockedOn ''article'') articleConfig articleDB)
     = Inr (Resource 2 ''article'' ''Article'' ''news article'' None [] [])"
    by (simp add: Manager_CreateResource_def lockedOn_simps Gorm_defs example_defs)
  have dup: "db_resources (snd (Manager_CreateResource (lockedOn ''article'') articleConfig articleDB))
     = [articleRow, Resource 2 ''article'' ''Article'' ''news article'' None [] []]"
    by (simp add: Manager_CreateResource_def lockedOn_simps Gorm_defs example_defs)
  have 7: "\<not> audit missingResourceLookup
         (Manager_CreateResource (traced (lockedOn ''article'')) articleConfig (articleDB, []))
         (Manager_CreateResource (lockedOn ''article'') articleConfig articleDB)"
    by (simp add: audit_def missingResourceLookup_def Manager_CreateResource_def lockedOn_simps
          Gorm_defs example_defs trace_simps)
  have 8: "GetResource (lockedOn ''comment'') ''comment'' (Some 1) commentDB
     = (Inl (ErrOther ''database is locked''), commentDB)"
    by (simp add: lockedOn_simps)
  have 9: "fst (CreateResources (lockedOn ''comment'') ''article'' [commentDelete] commentDB)
     = Inl (ErrOther ''UNIQUE constraint failed: resources.key, resources.parent_id'')"
    by (simp add: CreateResources_def getResourceByPath_def p lockedOn_simps Gorm_defs example_defs)
  have 10: "\<not> audit missingResourceLookup
         (CreateResources (traced (lockedOn ''comment'')) ''article'' [commentDelete] (commentDB, []))
         (CreateResources (lockedOn ''comment'') ''article'' [commentDelete] commentDB)"
    by (simp add: audit_def missingResourceLookup_def CreateResources_def getResourceByPath_def p
          lockedOn_simps Gorm_defs example_defs trace_simps)
  from 1 2 3 4 5 6 dup 7 8 9 10 show ?thesis by blast
qed

text \<open>
  The defect is confined to these lookups.  For every operation of the manager and every
  storage, the error of every failed storage call is the result of the operation, except
  for: a role lookup of \<open>CheckRolesPermission\<close> that fails with \<open>ErrRoleNotFound\<close>, which
  is skipped as specified; and the lookups by which \<open>CreateResource\<close>, \<open>CreateResources\<close>
  and \<open>CreateRole\<close> check for an existing entry.  The lookups by which \<open>CreateResources\<close>
  resolves the parent path are returned like any other.  (Removing a permission that a
  role does not hold involves no failed call: \<open>RemovePermissions\<close> needs no exemption.)
\<close>

theorem storage_failures_reported:
  "audit noExemption (Manager_GetResource (traced st) path (s, [])) (Manager_GetResource st path s)
   \<and> audit noExemption (Manager_ListResources (traced st) (s, [])) (Manager_ListResources st s)
   \<and> audit noExemption (AddActions (traced st) path actions (s, [])) (AddActions st path actions s)
   \<and> audit noExemption (Manager_DeleteResource (traced st) path (s, []))
       (Manager_DeleteResource st path s)
   \<and> audit noExemption (AssignPermissions (traced st) key permissions (s, []))
       (AssignPermissions st key permissions s)
   \<and> audit noExemption (RemovePermissions (traced st) key permissions (s, []))
       (RemovePermissions st key permissions s)
   \<and> audit noExemption (Manager_GetRole (traced st) key (s, [])) (Manager_GetRole st key s)
   \<and> audit noExemption (Manager_ListRoles (traced st) (s, [])) (Manager_ListRoles st s)
   \<and> audit noExemption (Manager_DeleteRole (traced st) key (s, [])) (Manager_DeleteRole st key s)
   \<and> audit noExemption (CheckRolePermission (traced st) key required (s, []))
       (CheckRolePermission st key required s)
   \<and> audit missingRoleLookup (CheckRolesPermission (traced st) roleKeys required (s, []))
       (CheckRolesPermission st roleKeys required s)
   \<and> audit resourceLookup (Manager_CreateResource (traced st) config (s, []))
       (Manager_CreateResource st config s)
   \<and> audit resourceLookup (CreateResources (traced st) path subResources (s, []))
       (CreateResources st path subResources s)
   \<and> (fst (getResourceByPath st path s) = Inl err \<longrightarrow>
        fst (CreateResources st path subResources s) = Inl err)
   \<and> audit roleLookup (Manager_CreateRole (traced st) key roleConfig (s, []))
       (Manager_CreateRole st key roleConfig s)"
  unfolding exemption_lambdas
  by (intro conjI impI Manager_GetResource_audit Manager_ListResources_audit AddActions_audit
        Manager_DeleteResource_audit AssignPermissions_audit RemovePermissions_audit
        Manager_GetRole_audit Manager_ListRoles_audit Manager_DeleteRole_audit
        CheckRolePermission_audit CheckRolesPermission_audit Manager_CreateResource_audit
        CreateResources_audit Manager_CreateRole_audit CreateResources_resolution_failure)

text \<open>
  On the backend whose lookup of \<open>viewer\<close> fails: \<open>CreateRole\<close> makes two calls, the failed
  lookup being the exempted one, while \<open>AssignPermissions\<close> returns the error of the same
  lookup; and a parent path that does not resolve is the error of \<open>CreateResources\<close>.
\<close>

theorem storage_failures_reported_witness:
  "audit roleLookup
     (Manager_CreateRole (traced (lockedOn ''viewer'')) ''viewer'' viewerConfig (emptyDB, []))
     (Manager_CreateRole (lockedOn ''viewer'') ''viewer'' viewerConfig emptyDB)
   \<and> traceFrom (Manager_CreateRole (traced (lockedOn ''viewer'')) ''viewer'' viewerConfig) emptyDB
       = [(MGetRole, Some (ErrOther ''database is locked'')), (MCreateRole, None)]
   \<and> audit noExemption
       (AssignPermissions (traced (lockedOn ''viewer'')) ''viewer'' [''a''] (viewerDB, []))
       (AssignPermissions (lockedOn ''viewer'') ''viewer'' [''a''] viewerDB)
   \<and> AssignPermissions (lockedOn ''viewer'') ''viewer'' [''a''] viewerDB
       = (Inl (ErrOther ''database is locked''), viewerDB)
   \<and> fst (getResourceByPath GormStorage ''missing'' emptyDB) = Inl ErrResourceNotFound
   \<and> fst (CreateResources GormStorage ''missing'' [commentEdit] emptyDB) = Inl ErrResourceNotFound"
proof -
  note t = storage_failures_reported[of "lockedOn ''viewer''" _ emptyDB _ "''viewer''" _ _ _ _ _
      _ viewerConfig]
  note u = storage_failures_reported[of "lockedOn ''viewer''" _ viewerDB _ "''viewer''" "[''a'']"]
  note v = storage_failures_reported[of GormStorage "''missing''" emptyDB _ _ _ _ _ _
      "[commentEdit]" ErrResourceNotFound]
  have a: "audit roleLookup
     (Manager_CreateRole (traced (lockedOn ''viewer'')) ''viewer'' viewerConfig (emptyDB, []))
     (Manager_CreateRole (lockedOn ''viewer'') ''viewer'' viewerConfig emptyDB)"
    using t by blast
  have b: "traceFrom (Manager_CreateRole (traced (lockedOn ''viewer'')) ''viewer'' viewerConfig) emptyDB
     = [(MGetRole, Some (ErrOther ''database is locked'')), (MCreateRole, None)]"
    by (simp add: traceFrom_def Manager_CreateRole_def lockedOn_simps Gorm_defs example_defs
          trace_simps)
  have c: "audit noExemption
       (AssignPermissions (traced (lockedOn ''viewer'')) ''viewer'' [''a''] (viewerDB, []))
       (AssignPermissions (lockedOn ''viewer'') ''viewer'' [''a''] viewerDB)"
    using u by blast
  have d: "AssignPermissions (lockedOn ''viewer'') ''viewer'' [''a''] viewerDB
       = (Inl (ErrOther ''database is locked''), viewerDB)"
    by (simp add: AssignPermissions_def lockedOn_simps)
  have e: "fst (getResourceByPath GormStorage ''missing'' emptyDB) = Inl ErrResourceNotFound"
    by (simp add: getResourceByPath_def parseResourcePath_def GormStorage_simps
          Gorm_GetResource_def emptyDB_def)
  have f: "fst (CreateResources GormStorage ''missing'' [commentEdit] emptyDB)
           = Inl ErrResourceNotFound"
    using v e by blast
  from a b c d e f show ?thesis by blast
qed

text \<open>
  C7.  \<open>AssignPermissions\<close> loads the role (an error of the lookup is returned) and hands
  to \<open>UpdateRole\<close> the role whose permission list is the old list followed by the incoming
  permissions that the old list does not contain, each once, in the order of their first
  occurrence in the input.  In the list the two loops build, a permission of the old list
  occurs as often as before, a permission that only the input has occurs exactly once, and
  no other permission occurs; for the input \<open>a, a, b\<close> on a role holding neither, the list
  is the old one followed by \<open>a, b\<close>.  On the GORM backend, with consistent roles, the call
  succeeds and the role read back afterwards carries the new list.
\<close>

theorem AssignPermissions_appends_missing:
  "(GetRole st roleKey s = (Inl err, s') \<longrightarrow>
      AssignPermissions st roleKey permissions s = (Inl err, s'))
   \<and> (GetRole st roleKey s = (Inr role, s') \<longrightarrow>
      AssignPermissions st roleKey permissions s =
        UpdateRole st
          (role\<lparr>role_Permissions :=
                   role_Permissions role @
                   keepFirst (filter (\<lambda>p. p \<notin> set (role_Permissions role)) permissions)\<rparr>) s')
   \<and> count_list (appendMissing permissions (markAll old (\<lambda>_. False)) old) p
       = (if p \<in> set old then count_list old p else if p \<in> set permissions then 1 else 0)
   \<and> (''a'' \<notin> set old \<and> ''b'' \<notin> set old \<longrightarrow>
      appendMissing [''a'', ''a'', ''b''] (markAll old (\<lambda>_. False)) old = old @ [''a'', ''b''])
   \<and> (rolesConsistent db \<and> GetRole GormStorage roleKey db = (Inr stored, db) \<longrightarrow>
      fst (AssignPermissions GormStorage roleKey permissions db) = Inr ()
      \<and> fst (GetRole GormStorage roleKey
               (snd (AssignPermissions GormStorage roleKey permissions db)))
          = Inr (stored\<lparr>role_Permissions :=
                   role_Permissions stored @
                   keepFirst (filter (\<lambda>p. p \<notin> set (role_Permissions stored)) permissions)\<rparr>))"
proof -
  have gorm: "fst (AssignPermissions GormStorage roleKey permissions db) = Inr ()
      \<and> fst (GetRole GormStorage roleKey
               (snd (AssignPermissions GormStorage roleKey permissions db)))
          = Inr (stored\<lparr>role_Permissions :=
                   role_Permissions stored @
                   keepFirst (filter (\<lambda>p. p \<notin> set (role_Permissions stored)) permissions)\<rparr>)"
    if "rolesConsistent db \<and> GetRole GormStorage roleKey db = (Inr stored, db)"
  proof -
    from that have wf: "rolesConsistent db" and g: "Gorm_GetRole roleKey db = (Inr stored, db)"
      by (simp_all add: GormStorage_simps)
    let ?ps = "role_Permissions stored @
                   keepFirst (filter (\<lambda>p. p \<notin> set (role_Permissions stored)) permissions)"
    have "AssignPermissions GormStorage roleKey permissions db
          = Gorm_UpdateRole (stored\<lparr>role_Permissions := ?ps\<rparr>) db"
      using g by (simp add: AssignPermissions_def GormStorage_simps markAll_empty appendMissing_eq)
    with Gorm_UpdateRole_found[OF wf g, of ?ps] show ?thesis
      by (simp add: GormStorage_simps)
  qed
  from AssignPermissions_stepwise[of st roleKey s err s' permissions role old p] gorm
  show ?thesis by blast
qed

text \<open>
  The role \<open>viewer\<close>, holding \<open>article.read\<close>, is assigned \<open>a, a, b\<close> and reads back with
  \<open>article.read, a, b\<close>; assigning to the missing role \<open>ghost\<close> returns \<open>ErrRoleNotFound\<close>.
\<close>

theorem AssignPermissions_appends_missing_witness:
  "fst (AssignPermissions GormStorage ''viewer'' [''a'', ''a'', ''b''] viewerDB) = Inr ()
   \<and> fst (GetRole GormStorage ''viewer''
            (snd (AssignPermissions GormStorage ''viewer'' [''a'', ''a'', ''b''] viewerDB)))
       = Inr (viewerRole\<lparr>role_Permissions := [''article.read'', ''a'', ''b'']\<rparr>)
   \<and> appendMissing [''a'', ''a'', ''b''] (markAll [''article.read''] (\<lambda>_. False))
         [''article.read''] = [''article.read'', ''a'', ''b'']
   \<and> AssignPermissions GormStorage ''ghost'' [''a''] viewerDB = (Inl ErrRoleNotFound, viewerDB)"
proof -
  have old: "role_Permissions viewerRole = [''article.read'']" by (simp add: viewerRole_def)
  have h: "rolesConsistent viewerDB
           \<and> GetRole GormStorage ''viewer'' viewerDB = (Inr viewerRole, viewerDB)"
    using viewerDB_consistent viewer_lookups(2) by simp
  note t = AssignPermissions_appends_missing[of GormStorage "''viewer''" viewerDB _ viewerDB
      "[''a'', ''a'', ''b'']" viewerRole "[''article.read'']" "''a''" viewerDB viewerRole]
  note u = AssignPermissions_appends_missing[of GormStorage "''ghost''" viewerDB ErrRoleNotFound
      viewerDB "[''a'']"]
  from t[THEN conjunct2, THEN conjunct2, THEN conjunct2, THEN conjunct2, THEN mp, OF h]
  have "fst (AssignPermissions GormStorage ''viewer'' [''a'', ''a'', ''b''] viewerDB) = Inr ()
   \<and> fst (GetRole GormStorage ''viewer''
            (snd (AssignPermissions GormStorage ''viewer'' [''a'', ''a'', ''b''] viewerDB)))
       = Inr (viewerRole\<lparr>role_Permissions := [''article.read'', ''a'', ''b'']\<rparr>)"
    by (simp add: old)
  moreover from t[THEN conjunct2, THEN conjunct2, THEN conjunct2, THEN conjunct1]
  have "appendMissing [''a'', ''a'', ''b''] (markAll [''article.read''] (\<lambda>_. False))
         [''article.read''] = [''article.read'', ''a'', ''b'']" by simp
  moreover from u[THEN conjunct1, THEN mp, OF viewer_lookups(1)]
  have "AssignPermissions GormStorage ''ghost'' [''a''] viewerDB = (Inl ErrRoleNotFound, viewerDB)" .
  ultimately show ?thesis by simp
qed

text \<open>
  C8.  When the lookup of the configuration's key at the root finds a resource,
  \<open>CreateResource\<close> returns \<open>ErrResourceExists\<close> and has made no storage call but that
  lookup.  On the GORM backend: if the table has a root row of that key, the result is
  \<open>ErrResourceExists\<close> and the database is unchanged; after a successful
  \<open>CreateResource\<close>, the same call on the resulting database returns \<open>ErrResourceExists\<close>
  and leaves it unchanged; and so does the second of any two calls with the same
  configuration, whatever the first returned.
\<close>

theorem CreateResource_rejects_existing_root:
  "(GetResource st (cfg_Key config) None s = (Inr existing, s') \<longrightarrow>
      Manager_CreateResource st config s = (Inl ErrResourceExists, s')
      \<and> traceFrom (Manager_CreateResource (traced st) config) s = [(MGetResource, None)])
   \<and> (hasRow db (cfg_Key config) None \<longrightarrow>
      Manager_CreateResource GormStorage config db = (Inl ErrResourceExists, db))
   \<and> (Manager_CreateResource GormStorage config db = (Inr resource, db') \<longrightarrow>
      Manager_CreateResource GormStorage config db' = (Inl ErrResourceExists, db'))
   \<and> Manager_CreateResource GormStorage config2
        (snd (Manager_CreateResource GormStorage config2 db2))
      = (Inl ErrResourceExists, snd (Manager_CreateResource GormStorage config2 db2))"
proof (intro conjI impI)
  assume g: "GetResource st (cfg_Key config) None s = (Inr existing, s')"
  then show "Manager_CreateResource st config s = (Inl ErrResourceExists, s')"
    by (simp add: Manager_CreateResource_def)
  from g show "traceFrom (Manager_CreateResource (traced st) config) s = [(MGetResource, None)]"
    by (simp add: traceFrom_def Manager_CreateResource_def trace_simps)
next
  assume "hasRow db (cfg_Key config) None"
  then show "Manager_CreateResource GormStorage config db = (Inl ErrResourceExists, db)"
    by (rule Manager_CreateResource_Gorm_exists)
next
  assume "Manager_CreateResource GormStorage config db = (Inr resource, db')"
  then have "hasRow db' (cfg_Key config) None"
    by (rule Manager_CreateResource_Gorm_success)
  then show "Manager_CreateResource GormStorage config db' = (Inl ErrResourceExists, db')"
    by (rule Manager_CreateResource_Gorm_exists)
next
  show "Manager_CreateResource GormStorage config2
          (snd (Manager_CreateResource GormStorage config2 db2))
        = (Inl ErrResourceExists, snd (Manager_CreateResource GormStorage config2 db2))"
    by (rule Manager_CreateResource_Gorm_exists) (rule Manager_CreateResource_Gorm_root)
qed

text \<open>
  Creating \<open>article\<close> on the empty database succeeds; creating it again fails with
  \<open>ErrResourceExists\<close> after a single lookup.
\<close>

theorem CreateResource_rejects_existing_root_witness:
  "Manager_CreateResource GormStorage articleConfig emptyDB = (Inr articleRow, articleDB)
   \<and> Manager_CreateResource GormStorage articleConfig articleDB = (Inl ErrResourceExists, articleDB)
   \<and> traceFrom (Manager_CreateResource (traced GormStorage) articleConfig) articleDB
       = [(MGetResource, None)]
   \<and> hasRow articleDB ''article'' None"
proof -
  note t = CreateResource_rejects_existing_root[of GormStorage articleConfig articleDB
      "preload articleDB articleRow" articleDB emptyDB articleRow articleDB]
  have g: "GetResource GormStorage (cfg_Key articleConfig) None articleDB
           = (Inr (preload articleDB articleRow), articleDB)"
    by (simp add: GormStorage_simps Gorm_defs example_defs)
  have h: "hasRow articleDB (cfg_Key articleConfig) None"
    by (simp add: hasRow_def example_defs)
  note t2 = CreateResource_rejects_existing_root[of GormStorage articleConfig articleDB
      "preload articleDB articleRow" articleDB articleDB]
  from t[THEN conjunct2, THEN conjunct2, THEN conjunct1, THEN mp, OF create_article]
       t[THEN conjunct1, THEN mp, OF g]
       t2[THEN conjunct2, THEN conjunct1, THEN mp, OF h] create_article h
  show ?thesis by (simp add: articleConfig_def)
qed

text \<open>
  C9.  \<open>RemovePermissions\<close> loads the role (an error of the lookup is returned) and hands
  to \<open>UpdateRole\<close> the role whose permission list is the old list without the values of the
  input, the others in their old order.  When no value of the input is in the old list,
  the role handed over is the role as loaded.  On the GORM backend, with consistent roles,
  the call succeeds and the role read back afterwards carries the filtered list; it is the
  role as it was when the input has no value of its list.
\<close>

theorem RemovePermissions_filters:
  "(GetRole st roleKey s = (Inl err, s') \<longrightarrow>
      RemovePermissions st roleKey permissions s = (Inl err, s'))
   \<and> (GetRole st roleKey s = (Inr role, s') \<longrightarrow>
      RemovePermissions st roleKey permissions s =
        UpdateRole st
          (role\<lparr>role_Permissions :=
                   filter (\<lambda>p. p \<notin> set permissions) (role_Permissions role)\<rparr>) s')
   \<and> (GetRole st roleKey s = (Inr role, s') \<and> set permissions \<inter> set (role_Permissions role) = {} \<longrightarrow>
      RemovePermissions st roleKey permissions s = UpdateRole st role s')
   \<and> (rolesConsistent db \<and> GetRole GormStorage roleKey db = (Inr stored, db) \<longrightarrow>
      fst (RemovePermissions GormStorage roleKey permissions db) = Inr ()
      \<and> fst (GetRole GormStorage roleKey
               (snd (RemovePermissions GormStorage roleKey permissions db)))
          = Inr (stored\<lparr>role_Permissions :=
                   filter (\<lambda>p. p \<notin> set permissions) (role_Permissions stored)\<rparr>))
   \<and> (rolesConsistent db \<and> GetRole GormStorage roleKey db = (Inr stored, db)
        \<and> set permissions \<inter> set (role_Permissions stored) = {} \<longrightarrow>
      fst (RemovePermissions GormStorage roleKey permissions db) = Inr ()
      \<and> fst (GetRole GormStorage roleKey
               (snd (RemovePermissions GormStorage roleKey permissions db))) = Inr stored)"
proof -
  have gorm: "fst (RemovePermissions GormStorage roleKey permissions db) = Inr ()
      \<and> fst (GetRole GormStorage roleKey
               (snd (RemovePermissions GormStorage roleKey permissions db)))
          = Inr (stored\<lparr>role_Permissions :=
                   filter (\<lambda>p. p \<notin> set permissions) (role_Permissions stored)\<rparr>)"
    if "rolesConsistent db \<and> GetRole GormStorage roleKey db = (Inr stored, db)"
  proof -
    from that have wf: "rolesConsistent db" and g: "Gorm_GetRole roleKey db = (Inr stored, db)"
      by (simp_all add: GormStorage_simps)
    let ?ps = "filter (\<lambda>p. p \<notin> set permissions) (role_Permissions stored)"
    have "RemovePermissions GormStorage roleKey permissions db
          = Gorm_UpdateRole (stored\<lparr>role_Permissions := ?ps\<rparr>) db"
      using g by (simp add: RemovePermissions_def GormStorage_simps markAll_empty keepUnmarked_eq)
    with Gorm_UpdateRole_found[OF wf g, of ?ps] show ?thesis
      by (simp add: GormStorage_simps)
  qed
  have same: "fst (RemovePermissions GormStorage roleKey permissions db) = Inr ()
      \<and> fst (GetRole GormStorage roleKey
               (snd (RemovePermissions GormStorage roleKey permissions db))) = Inr stored"
    if h: "rolesConsistent db \<and> GetRole GormStorage roleKey db = (Inr stored, db)
        \<and> set permissions \<inter> set (role_Permissions stored) = {}"
  proof -
    from h have "filter (\<lambda>p. p \<notin> set permissions) (role_Permissions stored) = role_Permissions stored"
      by (auto simp: filter_id_conv)
    with gorm h show ?thesis by simp
  qed
  from RemovePermissions_stepwise[of st roleKey s err s' permissions role] gorm same
  show ?thesis by blast
qed

text \<open>
  Removing \<open>z\<close> from \<open>viewer\<close> succeeds and leaves the role as it was; removing
  \<open>article.read\<close> leaves it without permissions; the missing role \<open>ghost\<close> gives
  \<open>ErrRoleNotFound\<close>.
\<close>

theorem RemovePermissions_filters_witness:
  "fst (RemovePermissions GormStorage ''viewer'' [''z''] viewerDB) = Inr ()
   \<and> fst (GetRole GormStorage ''viewer''
            (snd (RemovePermissions GormStorage ''viewer'' [''z''] viewerDB))) = Inr viewerRole
   \<and> fst (GetRole GormStorage ''viewer''
            (snd (RemovePermissions GormStorage ''viewer'' [''article.read''] viewerDB)))
       = Inr (viewerRole\<lparr>role_Permissions := []\<rparr>)
   \<and> RemovePermissions GormStorage ''ghost'' [''z''] viewerDB = (Inl ErrRoleNotFound, viewerDB)"
proof -
  have old: "role_Permissions viewerRole = [''article.read'']" by (simp add: viewerRole_def)
  have h: "rolesConsistent viewerDB
           \<and> GetRole GormStorage ''viewer'' viewerDB = (Inr viewerRole, viewerDB)"
    using viewerDB_consistent viewer_lookups(2) by simp
  have hz: "rolesConsistent viewerDB
           \<and> GetRole GormStorage ''viewer'' viewerDB = (Inr viewerRole, viewerDB)
           \<and> set [''z''] \<inter> set (role_Permissions viewerRole) = {}"
    using h by (simp add: old)
  note t = RemovePermissions_filters[of GormStorage "''viewer''" viewerDB _ viewerDB
      "[''z'']" viewerRole viewerDB viewerRole]
  note v = RemovePermissions_filters[of GormStorage "''viewer''" viewerDB _ viewerDB
      "[''article.read'']" viewerRole viewerDB viewerRole]
  note u = RemovePermissions_filters[of GormStorage "''ghost''" viewerDB ErrRoleNotFound
      viewerDB "[''z'']"]
  note a = t[THEN conjunct2, THEN conjunct2, THEN conjunct2, THEN conjunct2, THEN mp, OF hz]
  from v[THEN conjunct2, THEN conjunct2, THEN conjunct2, THEN conjunct1, THEN mp, OF h]
  have b: "fst (GetRole GormStorage ''viewer''
            (snd (RemovePermissions GormStorage ''viewer'' [''article.read''] viewerDB)))
       = Inr (viewerRole\<lparr>role_Permissions := []\<rparr>)"
    by (simp add: old)
  note c = u[THEN conjunct1, THEN mp, OF viewer_lookups(1)]
  from a b c show ?thesis by simp
qed

text \<open>
  C10.  \<open>parseResourcePath\<close> returns a non-empty list for every string, the empty one
  included, so \<open>getResourceByPath\<close> always walks the keys and never takes the branch that
  returns \<open>ErrInvalidResourcePath\<close>.  No method of the GORM backend returns that error, and
  on a storage none of whose methods returns it, no operation of the manager returns it, on
  any input.
\<close>

theorem ErrInvalidResourcePath_unreachable:
  "parseResourcePath path \<noteq> []
   \<and> getResourceByPath st path s
       = walkKeys st (hd (parseResourcePath path)) (tl (parseResourcePath path)) None s
   \<and> returnsNo ErrInvalidResourcePath GormStorage
   \<and> (returnsNo ErrInvalidResourcePath st \<longrightarrow>
        fst (getResourceByPath st path s) \<noteq> Inl ErrInvalidResourcePath
      \<and> fst (Manager_CreateResource st config s) \<noteq> Inl ErrInvalidResourcePath
      \<and> fst (AddActions st path actions s) \<noteq> Inl ErrInvalidResourcePath
      \<and> fst (CreateResources st path subResources s) \<noteq> Inl ErrInvalidResourcePath
      \<and> fst (Manager_GetResource st path s) \<noteq> Inl ErrInvalidResourcePath
      \<and> fst (Manager_ListResources st s) \<noteq> Inl ErrInvalidResourcePath
      \<and> fst (Manager_CreateRole st key roleConfig s) \<noteq> Inl ErrInvalidResourcePath
      \<and> fst (AssignPermissions st key permissions s) \<noteq> Inl ErrInvalidResourcePath
      \<and> fst (RemovePermissions st key permissions s) \<noteq> Inl ErrInvalidResourcePath
      \<and> fst (Manager_GetRole st key s) \<noteq> Inl ErrInvalidResourcePath
      \<and> fst (Manager_ListRoles st s) \<noteq> Inl ErrInvalidResourcePath
      \<and> fst (Manager_DeleteRole st key s) \<noteq> Inl ErrInvalidResourcePath
      \<and> fst (Manager_DeleteResource st path s) \<noteq> Inl ErrInvalidResourcePath
      \<and> fst (CheckRolePermission st key required s) \<noteq> Inl ErrInvalidResourcePath
      \<and> fst (CheckRolesPermission st roleKeys required s) \<noteq> Inl ErrInvalidResourcePath)"
proof (intro conjI impI)
  show "parseResourcePath path \<noteq> []" by (rule parseResourcePath_nonempty)
  show "getResourceByPath st path s
       = walkKeys st (hd (parseResourcePath path)) (tl (parseResourcePath path)) None s"
    using parseResourcePath_nonempty[of path]
    by (cases "parseResourcePath path") (simp_all add: getResourceByPath_def)
  show "returnsNo ErrInvalidResourcePath GormStorage" by (rule Gorm_returnsNo)
next
  assume c: "returnsNo ErrInvalidResourcePath st"
  show "fst (getResourceByPath st path s) \<noteq> Inl ErrInvalidResourcePath"
    by (rule getResourceByPath_clean[OF c])
  show "fst (Manager_CreateResource st config s) \<noteq> Inl ErrInvalidResourcePath"
    by (rule Manager_CreateResource_clean[OF c])
  show "fst (AddActions st path actions s) \<noteq> Inl ErrInvalidResourcePath"
    by (rule AddActions_clean[OF c])
  show "fst (CreateResources st path subResources s) \<noteq> Inl ErrInvalidResourcePath"
    by (rule CreateResources_clean[OF c])
  show "fst (Manager_GetResource st path s) \<noteq> Inl ErrInvalidResourcePath"
    by (simp add: Manager_GetResource_def getResourceByPath_clean[OF c])
  show "fst (Manager_ListResources st s) \<noteq> Inl ErrInvalidResourcePath"
    by (simp add: Manager_ListResources_def returnsNoD[OF c])
  show "fst (Manager_CreateRole st key roleConfig s) \<noteq> Inl ErrInvalidResourcePath"
    by (rule Manager_CreateRole_clean[OF c])
  show "fst (AssignPermissions st key permissions s) \<noteq> Inl ErrInvalidResourcePath"
    by (rule AssignPermissions_clean[OF c])
  show "fst (RemovePermissions st key permissions s) \<noteq> Inl ErrInvalidResourcePath"
    by (rule RemovePermissions_clean[OF c])
  show "fst (Manager_GetRole st key s) \<noteq> Inl ErrInvalidResourcePath"
    by (simp add: Manager_GetRole_def returnsNoD[OF c])
  show "fst (Manager_ListRoles st s) \<noteq> Inl ErrInvalidResourcePath"
    by (simp add: Manager_ListRoles_def returnsNoD[OF c])
  show "fst (Manager_DeleteRole st key s) \<noteq> Inl ErrInvalidResourcePath"
    by (rule Manager_DeleteRole_clean[OF c])
  show "fst (Manager_DeleteResource st path s) \<noteq> Inl ErrInvalidResourcePath"
    by (rule Manager_DeleteResource_clean[OF c])
  show "fst (CheckRolePermission st key required s) \<noteq> Inl ErrInvalidResourcePath"
    by (rule CheckRolePermission_clean[OF c])
  show "fst (CheckRolesPermission st roleKeys required s) \<noteq> Inl ErrInvalidResourcePath"
    by (rule CheckRolesPermission_clean[OF c])
qed

text \<open>
  On the GORM backend the empty path, a path with an empty key in the middle and the path
  made of one dot all fail to resolve with an error other than \<open>ErrInvalidResourcePath\<close>.
\<close>

theorem ErrInvalidResourcePath_unreachable_witness:
  "parseResourcePath '''' = ['''']
   \<and> fst (Manager_GetResource GormStorage '''' emptyDB) \<noteq> Inl ErrInvalidResourcePath
   \<and> fst (Manager_GetResource GormStorage '''' emptyDB) = Inl ErrResourceNotFound
   \<and> fst (AddActions GormStorage ''a..b'' [] emptyDB) \<noteq> Inl ErrInvalidResourcePath
   \<and> fst (Manager_DeleteResource GormStorage ''.'' emptyDB) \<noteq> Inl ErrInvalidResourcePath"
proof -
  note t = ErrInvalidResourcePath_unreachable[of "''''" GormStorage emptyDB]
  note u = ErrInvalidResourcePath_unreachable[of "''a..b''" GormStorage emptyDB _ "[]"]
  note v = ErrInvalidResourcePath_unreachable[of "''.''" GormStorage emptyDB]
  have c: "returnsNo ErrInvalidResourcePath GormStorage"
    using t[THEN conjunct2, THEN conjunct2, THEN conjunct1] .
  have p: "parseResourcePath '''' = ['''']" by (simp add: parseResourcePath_def)
  have e: "fst (Manager_GetResource GormStorage '''' emptyDB) = Inl ErrResourceNotFound"
    by (simp add: Manager_GetResource_def getResourceByPath_def p GormStorage_simps
          Gorm_GetResource_def emptyDB_def)
  from t[THEN conjunct2, THEN conjunct2, THEN conjunct2, THEN mp, OF c]
       u[THEN conjunct2, THEN conjunct2, THEN conjunct2, THEN mp, OF c]
       v[THEN conjunct2, THEN conjunct2, THEN conjunct2, THEN mp, OF c] p e
  show ?thesis by simp
qed

end
